theory Spec2Isabelle
  imports Complex_Main "HOL-Library.AList"
begin

section \<open>Strings\<close>

text \<open>
  A JavaScript string is a sequence of UTF-16 code units. The embedding takes a string as
  a \<^typ>\<open>string\<close>, a list of \<^typ>\<open>char\<close>: the code units below 256 (Latin-1). Every literal
  and every character class of \<^verbatim>\<open>lib/colors.js\<close> and of the de-duplication loop of
  \<^verbatim>\<open>lib/display.js\<close> lies in that range.
\<close>

text \<open>
  \<^verbatim>\<open>String.prototype.toLowerCase\<close> on one code unit below 256: \<^verbatim>\<open>A-Z\<close> and the capital
  letters \<^verbatim>\<open>0xC0-0xDE\<close> (the multiplication sign \<^verbatim>\<open>0xD7\<close> apart) move up by 32.
\<close>

definition lower_char :: "char \<Rightarrow> char" where
  "lower_char c =
     (let n = (of_char c :: nat)
      in if (65 \<le> n \<and> n \<le> 90) \<or> (192 \<le> n \<and> n \<le> 222 \<and> n \<noteq> 215)
         then char_of (n + 32) else c)"

definition toLowerCase :: "string \<Rightarrow> string" where
  "toLowerCase s = map lower_char s"

section \<open>Numbers\<close>

text \<open>
  A JavaScript number is an IEEE double. The embedding takes a finite number as the real it
  denotes; \<^verbatim>\<open>NaN\<close> is kept, since \<^verbatim>\<open>hexToRgb\<close> produces it, and the infinities and the
  negative zero are left out. The rounding of a double operation is modelled where it
  decides what is returned: in the sum \<^verbatim>\<open>h += 360\<close> of the two polar transforms, and in the
  products and quotients around \<^verbatim>\<open>Math.round\<close> of the two formatting functions. All other
  arithmetic (the matrices, powers and roots of the colour transforms) is exact.
\<close>

datatype number = NaN | Num real

definition num_map :: "(real \<Rightarrow> real) \<Rightarrow> number \<Rightarrow> number" where
  "num_map f v = (case v of NaN \<Rightarrow> NaN | Num x \<Rightarrow> Num (f x))"

text \<open>\<^verbatim>\<open>v < 1\<close>: a comparison with \<^verbatim>\<open>NaN\<close> is false.\<close>

definition less_than_one :: "number \<Rightarrow> bool" where
  "less_than_one v = (case v of NaN \<Rightarrow> False | Num x \<Rightarrow> x < 1)"

text \<open>
  \<^verbatim>\<open>Math.round\<close>: the nearest integer, a tie going up. It does not round its result: the
  nearest integer of a double is a double.
\<close>

definition Math_round :: "real \<Rightarrow> real" where
  "Math_round x = of_int \<lfloor>x + 1 / 2\<rfloor>"

text \<open>
  The rounding of an arithmetic operation on doubles (IEEE 754 binary64, round to nearest,
  ties to even): the result is the double nearest to the exact result, and of two doubles
  equally near the one with the even significand. The doubles around a real \<open>x\<close> other
  than zero are the multiples of \<open>ulp x\<close>, which is \<open>2\<close> to the power \<open>e - 52\<close> for the
  exponent \<open>e\<close> of the power of two at or below \<open>\<bar>x\<bar>\<close>, and \<open>e = -1022\<close> below that (the
  subnormal range). A result of magnitude \<open>2^1024\<close> or more is an infinity in JavaScript,
  which the embedding does not have: \<open>to_double\<close> is the rounding below that magnitude.
\<close>

definition round_half_even :: "real \<Rightarrow> int" where
  "round_half_even y =
     (let n = \<lfloor>y\<rfloor>; r = y - of_int n
      in if r < 1 / 2 then n else if 1 / 2 < r then n + 1 else if even n then n else n + 1)"

definition binade :: "real \<Rightarrow> int" where
  "binade x = max \<lfloor>log 2 \<bar>x\<bar>\<rfloor> (- 1022)"

definition ulp :: "real \<Rightarrow> real" where
  "ulp x = 2 powr of_int (binade x - 52)"

definition to_double :: "real \<Rightarrow> real" where
  "to_double x = (if x = 0 then 0 else of_int (round_half_even (x / ulp x)) * ulp x)"

text \<open>
  \<^verbatim>\<open>Math.atan2(y, x)\<close>, the angle of the point \<^verbatim>\<open>(x, y)\<close> in \<^verbatim>\<open>(-pi, pi]\<close>, by the cases of
  the language standard.
\<close>

definition Math_atan2 :: "real \<Rightarrow> real \<Rightarrow> real" where
  "Math_atan2 y x =
     (if x > 0 then arctan (y / x)
      else if x < 0 then (if y \<ge> 0 then arctan (y / x) + pi else arctan (y / x) - pi)
      else if y > 0 then pi / 2
      else if y < 0 then - (pi / 2)
      else 0)"

section \<open>Colour spaces (\<^verbatim>\<open>lib/colors.js\<close>)\<close>

text \<open>
  \<^verbatim>\<open>
  function srgbToLinear(c) {
    c = c / 255;
    return c <= 0.04045 ? c / 12.92 : Math.pow((c + 0.055) / 1.055, 2.4);
  }
  \<close>
  The base of the power is positive on its branch, where \<^verbatim>\<open>Math.pow\<close> is \<^const>\<open>powr\<close>.
\<close>

definition srgbToLinear :: "real \<Rightarrow> real" where
  "srgbToLinear c0 =
     (let c = c0 / 255
      in if c \<le> 0.04045 then c / 12.92 else ((c + 0.055) / 1.055) powr 2.4)"

text \<open>An object \<^verbatim>\<open>{x, y, z}\<close>, \<^verbatim>\<open>{l, a, b}\<close> or \<^verbatim>\<open>{l, c, h}\<close> is a triple, in that order.\<close>

type_synonym triple = "real \<times> real \<times> real"

definition linearRgbToXyz :: "real \<Rightarrow> real \<Rightarrow> real \<Rightarrow> triple" where
  "linearRgbToXyz r g b =
     (0.4124564 * r + 0.3575761 * g + 0.1804375 * b,
      0.2126729 * r + 0.7151522 * g + 0.0721750 * b,
      0.0193339 * r + 0.1191920 * g + 0.9503041 * b)"

text \<open>
  \<^verbatim>\<open>const f = (t) => t > 0.008856 ? Math.cbrt(t) : (903.3 * t + 16) / 116;\<close>
\<close>

definition lab_f :: "real \<Rightarrow> real" where
  "lab_f t = (if t > 0.008856 then root 3 t else (903.3 * t + 16) / 116)"

definition xyzToLab :: "real \<Rightarrow> real \<Rightarrow> real \<Rightarrow> triple" where
  "xyzToLab x y z =
     (let xn = 0.95047; yn = 1.00000; zn = 1.08883;
          fx = lab_f (x / xn); fy = lab_f (y / yn); fz = lab_f (z / zn)
      in (116 * fy - 16, 500 * (fx - fy), 200 * (fy - fz)))"

text \<open>
  \<^verbatim>\<open>
  function labToLch(l, a, b) {
    const c = Math.sqrt(a * a + b * b);
    let h = Math.atan2(b, a) * (180 / Math.PI);
    if (h < 0) h += 360;
    return { l: l, c: c, h: h };
  }
  \<close>
  The sum \<^verbatim>\<open>h + 360\<close> is a double: for a negative \<open>h\<close> nearer to zero than half the distance
  between 360 and the double below it, the sum is 360.
\<close>

definition labToLch :: "real \<Rightarrow> real \<Rightarrow> real \<Rightarrow> triple" where
  "labToLch l a b =
     (let c = sqrt (a * a + b * b);
          h = Math_atan2 b a * (180 / pi);
          h = (if h < 0 then to_double (h + 360) else h)
      in (l, c, h))"

definition rgbToLch :: "real \<Rightarrow> real \<Rightarrow> real \<Rightarrow> triple" where
  "rgbToLch r g b =
     (let lr = srgbToLinear r; lg = srgbToLinear g; lb = srgbToLinear b
      in case linearRgbToXyz lr lg lb of (x, y, z) \<Rightarrow>
         case xyzToLab x y z of (lab_l, lab_a, lab_b) \<Rightarrow> labToLch lab_l lab_a lab_b)"

definition linearRgbToOklab :: "real \<Rightarrow> real \<Rightarrow> real \<Rightarrow> triple" where
  "linearRgbToOklab r g b =
     (let l = root 3 (0.4122214708 * r + 0.5363325363 * g + 0.0514459929 * b);
          m = root 3 (0.2119034982 * r + 0.6806995451 * g + 0.1073969566 * b);
          s = root 3 (0.0883024619 * r + 0.2817188376 * g + 0.6299787005 * b)
      in (0.2104542553 * l + 0.7936177850 * m - 0.0040720468 * s,
          1.9779984951 * l - 2.4285922050 * m + 0.4505937099 * s,
          0.0259040371 * l + 0.7827717662 * m - 0.8086757660 * s))"

definition oklabToOklch :: "real \<Rightarrow> real \<Rightarrow> real \<Rightarrow> triple" where
  "oklabToOklch L a b =
     (let c = sqrt (a * a + b * b);
          h = Math_atan2 b a * (180 / pi);
          h = (if h < 0 then to_double (h + 360) else h)
      in (L, c, h))"

definition rgbToOklch :: "real \<Rightarrow> real \<Rightarrow> real \<Rightarrow> triple" where
  "rgbToOklch r g b =
     (let lr = srgbToLinear r; lg = srgbToLinear g; lb = srgbToLinear b
      in case linearRgbToOklab lr lg lb of (ok_L, ok_a, ok_b) \<Rightarrow> oklabToOklch ok_L ok_a ok_b)"

text \<open>
  \<^verbatim>\<open>convertColor\<close> calls the two conversions on channels that may be \<^verbatim>\<open>NaN\<close>. Every component
  of either result is computed from all three channels, and an arithmetic operation with a
  \<^verbatim>\<open>NaN\<close> operand gives \<^verbatim>\<open>NaN\<close> (the test \<^verbatim>\<open>h < 0\<close> is false on it): one \<^verbatim>\<open>NaN\<close> channel makes
  all three components \<^verbatim>\<open>NaN\<close>.
\<close>

definition on_numbers ::
  "(real \<Rightarrow> real \<Rightarrow> real \<Rightarrow> triple) \<Rightarrow> number \<Rightarrow> number \<Rightarrow> number \<Rightarrow> number \<times> number \<times> number"
where
  "on_numbers f r g b =
     (case (r, g, b) of
        (Num r', Num g', Num b') \<Rightarrow> (case f r' g' b' of (x, y, z) \<Rightarrow> (Num x, Num y, Num z))
      | _ \<Rightarrow> (NaN, NaN, NaN))"

section \<open>Formatting (\<^verbatim>\<open>lib/colors.js\<close>)\<close>

text \<open>
  A template literal \<^verbatim>\<open>${v}\<close> puts the decimal rendering of the number \<^verbatim>\<open>v\<close> into the string.
  That rendering (the shortest decimal that reads back as the same double) is a parameter
  \<open>str\<close> of the formatting functions: what is proved holds for every rendering.
  \<^verbatim>\<open>
  export function formatLch(lch, alpha) {
    const l = Math.round(lch.l * 100) / 100;
    const c = Math.round(lch.c * 100) / 100;
    const h = Math.round(lch.h * 100) / 100;
    if (alpha !== undefined && alpha < 1) {
      return `lch(${l}% ${c} ${h} / ${alpha})`;
    }
    return `lch(${l}% ${c} ${h})`;
  }
  \<close>
  An \<^verbatim>\<open>undefined\<close> alpha is \<^const>\<open>None\<close>. The product \<^verbatim>\<open>lch.l * 100\<close> is a double, and so is the
  quotient of its nearest integer by 100.
\<close>

definition formatLch ::
  "(number \<Rightarrow> string) \<Rightarrow> number \<times> number \<times> number \<Rightarrow> number option \<Rightarrow> string" where
  "formatLch str lch alpha =
     (case lch of (lch_l, lch_c, lch_h) \<Rightarrow>
        let l = num_map (\<lambda>x. to_double (Math_round (to_double (x * 100)) / 100)) lch_l;
            c = num_map (\<lambda>x. to_double (Math_round (to_double (x * 100)) / 100)) lch_c;
            h = num_map (\<lambda>x. to_double (Math_round (to_double (x * 100)) / 100)) lch_h
        in if alpha \<noteq> None \<and> less_than_one (the alpha)
           then ''lch('' @ str l @ ''% '' @ str c @ '' '' @ str h @ '' / '' @ str (the alpha) @ '')''
           else ''lch('' @ str l @ ''% '' @ str c @ '' '' @ str h @ '')'')"

text \<open>
  \<^verbatim>\<open>
  export function formatOklch(oklch, alpha) {
    // OKLCH lightness is 0-1, displayed as percentage
    const l = Math.round(oklch.l * 10000) / 100;
    const c = Math.round(oklch.c * 1000) / 1000;
    const h = Math.round(oklch.h * 100) / 100;
    if (alpha !== undefined && alpha < 1) {
      return `oklch(${l}% ${c} ${h} / ${alpha})`;
    }
    return `oklch(${l}% ${c} ${h})`;
  }
  \<close>
\<close>

definition formatOklch ::
  "(number \<Rightarrow> string) \<Rightarrow> number \<times> number \<times> number \<Rightarrow> number option \<Rightarrow> string" where
  "formatOklch str oklch alpha =
     (case oklch of (oklch_l, oklch_c, oklch_h) \<Rightarrow>
        let l = num_map (\<lambda>x. to_double (Math_round (to_double (x * 10000)) / 100)) oklch_l;
            c = num_map (\<lambda>x. to_double (Math_round (to_double (x * 1000)) / 1000)) oklch_c;
            h = num_map (\<lambda>x. to_double (Math_round (to_double (x * 100)) / 100)) oklch_h
        in if alpha \<noteq> None \<and> less_than_one (the alpha)
           then ''oklch('' @ str l @ ''% '' @ str c @ '' '' @ str h @ '' / '' @ str (the alpha) @ '')''
           else ''oklch('' @ str l @ ''% '' @ str c @ '' '' @ str h @ '')'')"

text \<open>
  The object that \<^verbatim>\<open>convertColor\<close> and \<^verbatim>\<open>normalizeColorFormat\<close> return.
\<close>

record formats =
  hex :: string
  rgb :: string
  lch :: string
  oklch :: string
  hasAlpha :: bool

section \<open>Parsing (\<^verbatim>\<open>lib/colors.js\<close>)\<close>

subsection \<open>Character classes and \<^verbatim>\<open>parseInt\<close>, \<^verbatim>\<open>parseFloat\<close>\<close>

text \<open>The class \<^verbatim>\<open>\d\<close>.\<close>

definition is_digit :: "char \<Rightarrow> bool" where
  "is_digit c = (c \<in> set ''0123456789'')"

text \<open>
  The class \<^verbatim>\<open>\s\<close>, and the white space \<^verbatim>\<open>parseInt\<close> skips, below 256: tab, line feed,
  vertical tab, form feed, carriage return, space, no-break space.
\<close>

definition is_space :: "char \<Rightarrow> bool" where
  "is_space c = ((of_char c :: nat) \<in> {9, 10, 11, 12, 13, 32, 160})"

text \<open>The class \<^verbatim>\<open>[\d.]\<close>.\<close>

definition is_digit_or_dot :: "char \<Rightarrow> bool" where
  "is_digit_or_dot c = (is_digit c \<or> c = CHR ''.'')"

text \<open>The value of a character as a digit: \<^verbatim>\<open>0-9\<close>, then \<^verbatim>\<open>a-z\<close> or \<^verbatim>\<open>A-Z\<close> from ten on.\<close>

definition digit_value :: "char \<Rightarrow> nat option" where
  "digit_value c =
     (let n = (of_char c :: nat)
      in if 48 \<le> n \<and> n \<le> 57 then Some (n - 48)
         else if 97 \<le> n \<and> n \<le> 122 then Some (n - 87)
         else if 65 \<le> n \<and> n \<le> 90 then Some (n - 55)
         else None)"

definition is_radix_digit :: "nat \<Rightarrow> char \<Rightarrow> bool" where
  "is_radix_digit R c = (case digit_value c of Some d \<Rightarrow> d < R | None \<Rightarrow> False)"

text \<open>The number a string of digits denotes in radix \<open>R\<close>, the most significant digit first.\<close>

definition digits_value :: "nat \<Rightarrow> string \<Rightarrow> nat" where
  "digits_value R ds = foldl (\<lambda>acc c. acc * R + the (digit_value c)) 0 ds"

text \<open>
  \<^verbatim>\<open>parseInt(string, radix)\<close> by the steps of the language standard: skip leading white space,
  take a sign, with radix 16 (or none) skip a prefix \<^verbatim>\<open>0x\<close> or \<^verbatim>\<open>0X\<close>, read the longest run of
  digits of the radix; no digit gives \<^verbatim>\<open>NaN\<close>. A call without a radix is radix \<open>0\<close> here and
  reads decimal unless the prefix makes it hexadecimal. The result is the integer read;
  JavaScript returns the double nearest to it, which is that integer up to \<open>2^53\<close>.
\<close>

definition parseInt :: "string \<Rightarrow> nat \<Rightarrow> number" where
  "parseInt string radix =
     (let S = dropWhile is_space string;
          negative = (S \<noteq> [] \<and> hd S = CHR ''-'');
          S = (if S \<noteq> [] \<and> (hd S = CHR ''+'' \<or> hd S = CHR ''-'') then tl S else S);
          hasPrefix = (take 2 S = ''0x'' \<or> take 2 S = ''0X'')
      in if radix \<noteq> 0 \<and> (radix < 2 \<or> radix > 36) then NaN
         else
           let stripPrefix = (radix = 0 \<or> radix = 16);
               R = (if radix = 0 then (if hasPrefix then 16 else 10) else radix);
               S = (if stripPrefix \<and> hasPrefix then drop 2 S else S);
               Z = takeWhile (is_radix_digit R) S
           in if Z = [] then NaN
              else if negative then Num (- real (digits_value R Z))
              else Num (real (digits_value R Z)))"

text \<open>
  \<^verbatim>\<open>parseFloat\<close> on what \<^verbatim>\<open>convertColor\<close> passes to it, a string of the class \<^verbatim>\<open>[\d.]\<close>: the
  longest prefix that is a decimal literal (digits, then optionally a dot and digits; or a
  dot and at least one digit), \<^verbatim>\<open>NaN\<close> when there is none. Signs, exponents and
  \<^verbatim>\<open>Infinity\<close> cannot stand in such a string and are left out.
\<close>

definition parseFloat :: "string \<Rightarrow> number" where
  "parseFloat string =
     (let ip = takeWhile is_digit string;
          rest = dropWhile is_digit string;
          fp = (case rest of c # cs \<Rightarrow> if c = CHR ''.'' then takeWhile is_digit cs else []
                | [] \<Rightarrow> [])
      in if ip = [] \<and> fp = [] then NaN
         else Num (real (digits_value 10 ip) + real (digits_value 10 fp) / 10 ^ length fp))"

subsection \<open>\<^verbatim>\<open>hexToRgb\<close>\<close>

text \<open>\<^verbatim>\<open>s.slice(i, j)\<close> for \<open>0 \<le> i \<le> j\<close>.\<close>

definition slice :: "string \<Rightarrow> nat \<Rightarrow> nat \<Rightarrow> string" where
  "slice s i j = take (j - i) (drop i s)"

text \<open>
  The object \<^verbatim>\<open>{r, g, b, a}\<close> is a tuple whose last component is \<^const>\<open>None\<close> when the
  object has no \<^verbatim>\<open>a\<close>; the result \<^verbatim>\<open>null\<close> is \<^const>\<open>None\<close>.
  \<^verbatim>\<open>
  export function hexToRgb(hex) {
    if (!hex || !hex.startsWith('#')) return null;
    hex = hex.slice(1);
    if (hex.length === 3) {
      return { r: parseInt(hex[0] + hex[0], 16), g: parseInt(hex[1] + hex[1], 16),
               b: parseInt(hex[2] + hex[2], 16) };
    }
    if (hex.length === 6) {
      return { r: parseInt(hex.slice(0, 2), 16), g: parseInt(hex.slice(2, 4), 16),
               b: parseInt(hex.slice(4, 6), 16) };
    }
    if (hex.length === 8) {
      return { r: parseInt(hex.slice(0, 2), 16), g: parseInt(hex.slice(2, 4), 16),
               b: parseInt(hex.slice(4, 6), 16), a: parseInt(hex.slice(6, 8), 16) / 255 };
    }
    return null;
  }
  \<close>
\<close>

type_synonym rgba = "number \<times> number \<times> number \<times> number option"

definition hexToRgb :: "string \<Rightarrow> rgba option" where
  "hexToRgb hex0 =
     (if hex0 = [] \<or> take 1 hex0 \<noteq> ''#'' then None
      else
        let hex = drop 1 hex0
        in if length hex = 3 then
             Some (parseInt ([hex ! 0] @ [hex ! 0]) 16,
                   parseInt ([hex ! 1] @ [hex ! 1]) 16,
                   parseInt ([hex ! 2] @ [hex ! 2]) 16, None)
           else if length hex = 6 then
             Some (parseInt (slice hex 0 2) 16,
                   parseInt (slice hex 2 4) 16,
                   parseInt (slice hex 4 6) 16, None)
           else if length hex = 8 then
             Some (parseInt (slice hex 0 2) 16,
                   parseInt (slice hex 2 4) 16,
                   parseInt (slice hex 4 6) 16,
                   Some (num_map (\<lambda>x. x / 255) (parseInt (slice hex 6 8) 16)))
           else None)"

subsection \<open>The pattern of \<^verbatim>\<open>convertColor\<close>\<close>

text \<open>
  \<^verbatim>\<open>colorString.match(/rgba?\((\d+),\s*(\d+),\s*(\d+)(?:,\s*([\d.]+))?\)/)\<close>
  looks for the leftmost position where the pattern matches and returns the four groups
  there (the last one \<^verbatim>\<open>undefined\<close>, here \<^const>\<open>None\<close>, when the optional part did not take
  part). In this pattern the character after each repetition cannot belong to the
  repetition (a comma or a parenthesis after digits, a digit after white space), and
  \<^verbatim>\<open>a\<close> cannot be \<^verbatim>\<open>(\<close>, so backtracking finds nothing that the greedy first try misses: the
  match at a position is read off from left to right.
\<close>

definition expect :: "string \<Rightarrow> string \<Rightarrow> string option" where
  "expect lit s = (if take (length lit) s = lit then Some (drop (length lit) s) else None)"

definition many1 :: "(char \<Rightarrow> bool) \<Rightarrow> string \<Rightarrow> (string \<times> string) option" where
  "many1 P s = (if takeWhile P s = [] then None else Some (takeWhile P s, dropWhile P s))"

type_synonym groups = "string \<times> string \<times> string \<times> string option"

definition match_here :: "string \<Rightarrow> groups option" where
  "match_here s =
     Option.bind (expect ''rgb'' s) (\<lambda>s.
     Option.bind (expect ''('' (case expect ''a'' s of Some t \<Rightarrow> t | None \<Rightarrow> s)) (\<lambda>s.
     Option.bind (many1 is_digit s) (\<lambda>(m1, s).
     Option.bind (expect '','' s) (\<lambda>s.
     Option.bind (many1 is_digit (dropWhile is_space s)) (\<lambda>(m2, s).
     Option.bind (expect '','' s) (\<lambda>s.
     Option.bind (many1 is_digit (dropWhile is_space s)) (\<lambda>(m3, s).
       case expect '','' s of
         Some t \<Rightarrow>
           Option.bind (many1 is_digit_or_dot (dropWhile is_space t)) (\<lambda>(m4, s).
           Option.bind (expect '')'' s) (\<lambda>_. Some (m1, m2, m3, Some m4)))
       | None \<Rightarrow> Option.bind (expect '')'' s) (\<lambda>_. Some (m1, m2, m3, None)))))))))"

fun rgbaMatch :: "string \<Rightarrow> groups option" where
  "rgbaMatch [] = match_here []"
| "rgbaMatch (c # cs) =
     (case match_here (c # cs) of Some m \<Rightarrow> Some m | None \<Rightarrow> rgbaMatch cs)"

subsection \<open>\<^verbatim>\<open>convertColor\<close>\<close>

text \<open>
  \<^verbatim>\<open>n.toString(16)\<close> for \<^verbatim>\<open>NaN\<close> and for an integer \<open>n\<close>, which is all that \<^verbatim>\<open>convertColor\<close>
  applies it to: the hexadecimal digits in lower case, after a minus sign when negative.
\<close>

definition hex_digit :: "nat \<Rightarrow> char" where
  "hex_digit d = ''0123456789abcdef'' ! d"

fun to_base16 :: "nat \<Rightarrow> string" where
  "to_base16 n = (if n < 16 then [hex_digit n] else to_base16 (n div 16) @ [hex_digit (n mod 16)])"

declare to_base16.simps [simp del]

definition toString16 :: "number \<Rightarrow> string" where
  "toString16 v =
     (case v of
        NaN \<Rightarrow> ''NaN''
      | Num x \<Rightarrow> if x < 0 then ''-'' @ to_base16 (nat \<lfloor>- x\<rfloor>) else to_base16 (nat \<lfloor>x\<rfloor>))"

text \<open>\<^verbatim>\<open>s.padStart(2, '0')\<close>\<close>

definition padStart2 :: "string \<Rightarrow> string" where
  "padStart2 s = replicate (2 - length s) CHR ''0'' @ s"

text \<open>
  The first half of \<^verbatim>\<open>convertColor\<close>: the channels and the alpha from the pattern, or else
  from \<^verbatim>\<open>hexToRgb\<close>.
  \<^verbatim>\<open>
  const rgbaMatch = colorString.match(...);
  if (rgbaMatch) {
    r = parseInt(rgbaMatch[1]); g = parseInt(rgbaMatch[2]); b = parseInt(rgbaMatch[3]);
    a = rgbaMatch[4] ? parseFloat(rgbaMatch[4]) : undefined;
  } else {
    const rgb = hexToRgb(colorString);
    if (!rgb) return null;
    r = rgb.r; g = rgb.g; b = rgb.b; a = rgb.a;
  }
  \<close>
  A matched fourth group is not empty, hence truthy.
\<close>

definition parse_channels :: "string \<Rightarrow> rgba option" where
  "parse_channels colorString =
     (case rgbaMatch colorString of
        Some (m1, m2, m3, m4) \<Rightarrow>
          Some (parseInt m1 0, parseInt m2 0, parseInt m3 0,
                (case m4 of Some m \<Rightarrow> Some (parseFloat m) | None \<Rightarrow> None))
      | None \<Rightarrow> hexToRgb colorString)"

text \<open>
  The second half.
  \<^verbatim>\<open>
  const hex = `#${r.toString(16).padStart(2, '0')}${g.toString(16).padStart(2, '0')}${b.toString(16).padStart(2, '0')}`;
  const rgbStr = a !== undefined ? `rgba(${r}, ${g}, ${b}, ${a})` : `rgb(${r}, ${g}, ${b})`;
  const lchValues = rgbToLch(r, g, b);
  const oklchValues = rgbToOklch(r, g, b);
  return { hex: hex.toLowerCase(), rgb: rgbStr, lch: formatLch(lchValues, a),
           oklch: formatOklch(oklchValues, a), hasAlpha: a !== undefined && a < 1 };
  \<close>
\<close>

definition convertColor :: "(number \<Rightarrow> string) \<Rightarrow> string \<Rightarrow> formats option" where
  "convertColor str colorString =
     (case parse_channels colorString of
        None \<Rightarrow> None
      | Some (r, g, b, a) \<Rightarrow>
          let hex = ''#'' @ padStart2 (toString16 r) @ padStart2 (toString16 g)
                      @ padStart2 (toString16 b);
              rgbStr = (if a \<noteq> None
                        then ''rgba('' @ str r @ '', '' @ str g @ '', '' @ str b @ '', ''
                               @ str (the a) @ '')''
                        else ''rgb('' @ str r @ '', '' @ str g @ '', '' @ str b @ '')'');
              lchValues = on_numbers rgbToLch r g b;
              oklchValues = on_numbers rgbToOklch r g b
          in Some \<lparr>hex = toLowerCase hex, rgb = rgbStr, lch = formatLch str lchValues a,
                   oklch = formatOklch str oklchValues a,
                   hasAlpha = (a \<noteq> None \<and> less_than_one (the a))\<rparr>)"

text \<open>
  \<^verbatim>\<open>normalizeColorFormat\<close> of \<^verbatim>\<open>lib/display.js\<close>: the conversion, or the string itself in all
  four fields.
\<close>

definition normalizeColorFormat :: "(number \<Rightarrow> string) \<Rightarrow> string \<Rightarrow> formats" where
  "normalizeColorFormat str colorString =
     (case convertColor str colorString of
        Some converted \<Rightarrow> converted
      | None \<Rightarrow> \<lparr>hex = colorString, rgb = colorString, lch = colorString,
                   oklch = colorString, hasAlpha = False\<rparr>)"

section \<open>The colour list of \<^verbatim>\<open>displayColors\<close> and its de-duplication\<close>

text \<open>
  \<^verbatim>\<open>normalizeColorFormat\<close> and \<^verbatim>\<open>convertColor\<close> return an object with the fields
  \<^verbatim>\<open>hex, rgb, lch, oklch, hasAlpha\<close>; \<^verbatim>\<open>displayColors\<close> pushes objects that carry the same five
  fields and \<^verbatim>\<open>label, type, confidence\<close> onto \<^verbatim>\<open>allColors\<close>.
\<close>

datatype confidence = high | medium | low

record color = formats +
  label :: string
  type :: string
  confidence :: confidence

text \<open>\<^verbatim>\<open>const confidenceOrder = { high: 3, medium: 2, low: 1 }\<close>\<close>

fun confidenceOrder :: "confidence \<Rightarrow> nat" where
  "confidenceOrder high = 3"
| "confidenceOrder medium = 2"
| "confidenceOrder low = 1"

text \<open>
  \<^verbatim>\<open>existing.label.split(', ')\<close>: the pieces between the occurrences of the two-character
  separator, found from the left. The first argument holds the characters of the current
  piece, last one first.
\<close>

fun split_from :: "string \<Rightarrow> string \<Rightarrow> string list" where
  "split_from acc [] = [rev acc]"
| "split_from acc (c # cs) =
     (case cs of
        d # ds \<Rightarrow>
          if c = CHR '','' \<and> d = CHR '' '' then rev acc # split_from [] ds
          else split_from (c # acc) cs
      | [] \<Rightarrow> split_from (c # acc) cs)"

definition split_labels :: "string \<Rightarrow> string list" where
  "split_labels s = split_from [] s"

text \<open>
  The label branch of a key collision (\<^verbatim>\<open>// Merge labels\<close>). A string is truthy when it is
  not empty.
  \<^verbatim>\<open>
  if (color.label && !existing.label) {
    existing.label = color.label;
  } else if (color.label && existing.label) {
    const existingLabels = existing.label.split(', ');
    if (!existingLabels.includes(color.label)) {
      existing.label = `${existing.label}, ${color.label}`;
    }
  }
  \<close>
\<close>

definition merge_labels :: "color \<Rightarrow> color \<Rightarrow> color" where
  "merge_labels c existing =
     (if label c \<noteq> [] \<and> label existing = [] then existing\<lparr>label := label c\<rparr>
      else if label c \<noteq> [] \<and> label existing \<noteq> [] then
        (let existingLabels = split_labels (label existing)
         in if label c \<notin> set existingLabels
            then existing\<lparr>label := label existing @ '', '' @ label c\<rparr>
            else existing)
      else existing)"

text \<open>
  The confidence branch (\<^verbatim>\<open>// Keep highest confidence\<close>).
  \<^verbatim>\<open>
  if (confidenceOrder[color.confidence] > confidenceOrder[existing.confidence]) {
    existing.confidence = color.confidence;
  }
  \<close>
\<close>

definition keep_highest :: "color \<Rightarrow> color \<Rightarrow> color" where
  "keep_highest c existing =
     (if confidenceOrder (confidence c) > confidenceOrder (confidence existing)
      then existing\<lparr>confidence := confidence c\<rparr> else existing)"

text \<open>
  \<^verbatim>\<open>colorMap\<close> is a JavaScript \<^verbatim>\<open>Map\<close>, which iterates in insertion order: an association
  list, where \<^const>\<open>AList.update\<close> replaces the value of a key in place and puts a new key
  last. The map holds a copy (\<^verbatim>\<open>{ ...color }\<close>) of the first object of a key, so the
  assignments to \<^verbatim>\<open>existing\<close> change the map's entry and nothing of \<^verbatim>\<open>allColors\<close>.
  One round of the \<^verbatim>\<open>forEach\<close>:
\<close>

definition dedupe_step :: "(string \<times> color) list \<Rightarrow> color \<Rightarrow> (string \<times> color) list" where
  "dedupe_step colorMap c =
     (let key = toLowerCase (hex c)
      in case map_of colorMap key of
           Some existing \<Rightarrow> AList.update key (keep_highest c (merge_labels c existing)) colorMap
         | None \<Rightarrow> AList.update key c colorMap)"

definition colorMap_of :: "color list \<Rightarrow> (string \<times> color) list" where
  "colorMap_of allColors = foldl dedupe_step [] allColors"

text \<open>\<^verbatim>\<open>const uniqueColors = Array.from(colorMap.values())\<close>\<close>

definition uniqueColors :: "color list \<Rightarrow> color list" where
  "uniqueColors allColors = map snd (colorMap_of allColors)"

text \<open>The key of a colour object in the map.\<close>

definition key_of :: "color \<Rightarrow> string" where
  "key_of c = toLowerCase (hex c)"

text \<open>
  The order the specification asks of the output: each element once, in the order of its
  first occurrence.
\<close>

fun first_occurrences :: "'a list \<Rightarrow> 'a list" where
  "first_occurrences [] = []"
| "first_occurrences (x # xs) = x # first_occurrences (removeAll x xs)"

text \<open>
  Two colour objects agree on every field that comes from the observation's colour string
  (all fields but \<^const>\<open>label\<close> and \<^const>\<open>confidence\<close>).
\<close>

definition same_origin :: "color \<Rightarrow> color \<Rightarrow> bool" where
  "same_origin e c =
     (hex e = hex c \<and> rgb e = rgb c \<and> lch e = lch c \<and> oklch e = oklch c
      \<and> hasAlpha e = hasAlpha c \<and> type e = type c)"

text \<open>
  Sample entries of \<^verbatim>\<open>allColors\<close>: three that write white in three ways and resolve to the
  same key, of confidence high, medium and low, and a black one.
\<close>

definition sample_first :: color where
  "sample_first = \<lparr>hex = ''#FFFFFF'', rgb = ''rgb(255, 255, 255)'', lch = ''lch(100% 0 0)'',
     oklch = ''oklch(100% 0 0)'', hasAlpha = False, label = ''Primary'', type = ''semantic'',
     confidence = high\<rparr>"

definition sample_second :: color where
  "sample_second = \<lparr>hex = ''#ffffff'', rgb = ''white'', lch = ''measured'',
     oklch = ''measured'', hasAlpha = True, label = ''Accent'', type = ''palette'',
     confidence = medium\<rparr>"

definition sample_third :: color where
  "sample_third = \<lparr>hex = ''#FfFfFf'', rgb = ''rgb(255, 255, 255)'', lch = ''lch(100% 0 0)'',
     oklch = ''oklch(100% 0 0)'', hasAlpha = False, label = [], type = ''palette'',
     confidence = low\<rparr>"

definition sample_dark :: color where
  "sample_dark = \<lparr>hex = ''#000000'', rgb = ''rgb(0, 0, 0)'', lch = ''lch(0% 0 0)'',
     oklch = ''oklch(0% 0 0)'', hasAlpha = False, label = ''Text'', type = ''semantic'',
     confidence = high\<rparr>"

section \<open>The grammars of the specification\<close>

text \<open>
  The specification speaks of two grammars. The hex grammar: \<^verbatim>\<open>#\<close> and then 3, 6 or 8
  hexadecimal digits.
\<close>

definition is_hex_digit :: "char \<Rightarrow> bool" where
  "is_hex_digit c = (c \<in> set ''0123456789abcdefABCDEF'')"

definition in_hex_grammar :: "string \<Rightarrow> bool" where
  "in_hex_grammar s =
     (\<exists>ds. s = ''#'' @ ds \<and> (length ds = 3 \<or> length ds = 6 \<or> length ds = 8)
        \<and> list_all is_hex_digit ds)"

text \<open>
  The \<^verbatim>\<open>rgb()/rgba()\<close> grammar: the strings that the pattern of \<^verbatim>\<open>convertColor\<close> denotes, that
  is \<^verbatim>\<open>rgb\<close> or \<^verbatim>\<open>rgba\<close>, an opening parenthesis, three runs of decimal digits separated by a
  comma and optional white space, optionally a comma, white space and a run of digits and
  dots, and a closing parenthesis.
\<close>

definition rgb_pattern :: "string \<Rightarrow> bool" where
  "rgb_pattern s =
     (\<exists>a m1 w1 m2 w2 m3 t.
        s = ''rgb'' @ a @ ''('' @ m1 @ '','' @ w1 @ m2 @ '','' @ w2 @ m3 @ t @ '')''
        \<and> (a = [] \<or> a = ''a'')
        \<and> m1 \<noteq> [] \<and> list_all is_digit m1
        \<and> list_all is_space w1 \<and> m2 \<noteq> [] \<and> list_all is_digit m2
        \<and> list_all is_space w2 \<and> m3 \<noteq> [] \<and> list_all is_digit m3
        \<and> (t = [] \<or> (\<exists>w3 m4. t = '','' @ w3 @ m4 \<and> list_all is_space w3
               \<and> m4 \<noteq> [] \<and> list_all is_digit_or_dot m4)))"

text \<open>A string has a part that is in the \<^verbatim>\<open>rgb()/rgba()\<close> grammar.\<close>

definition contains_rgb_pattern :: "string \<Rightarrow> bool" where
  "contains_rgb_pattern s = (\<exists>pre mid post. s = pre @ mid @ post \<and> rgb_pattern mid)"

text \<open>Auxiliary notions for the proofs about the hex field.\<close>

definition hex_char_ok :: "char \<Rightarrow> bool" where
  "hex_char_ok c =
     (case digit_value c of
        Some v \<Rightarrow> v < 16 \<and> hex_digit v = lower_char c
      | None \<Rightarrow> False)"

definition int_like :: "number \<Rightarrow> bool" where
  "int_like v = (v = NaN \<or> (\<exists>n. v = Num (real n) \<or> v = Num (- real n)))"

definition two_chars :: "number \<Rightarrow> bool" where
  "two_chars v = (\<exists>c d. padStart2 (toString16 v) = [c, d] \<and> lower_char c = c \<and> lower_char d = d
      \<and> c \<noteq> CHR ''('' \<and> d \<noteq> CHR ''('' \<and> parseInt [c, d] 16 = v)"

text \<open>
  A rendering of numbers for the examples (the rendering plays no part in the \<^verbatim>\<open>hex\<close>
  field or in the result being \<^verbatim>\<open>null\<close>), and an example of a gradient.
\<close>

definition plain_str :: "number \<Rightarrow> string" where
  "plain_str v = ''?''"

definition gradient :: string where
  "gradient = ''linear-gradient(rgb(255, 0, 0), rgb(0, 0, 255))''"

text \<open>
  The rendering of the numbers that the formatting examples print, as JavaScript renders
  them: \<^verbatim>\<open>0\<close>, \<^verbatim>\<open>50\<close>, \<^verbatim>\<open>0.5\<close>, and \<^verbatim>\<open>0.005\<close> for the double nearest to \<open>5 / 1000\<close>.
\<close>

definition sample_str :: "number \<Rightarrow> string" where
  "sample_str v =
     (case v of
        NaN \<Rightarrow> ''NaN''
      | Num x \<Rightarrow>
          if x = 0 then ''0'' else if x = 50 then ''50'' else if x = 1 / 2 then ''0.5''
          else if x = to_double (5 / 1000) then ''0.005'' else ''?'')"

section \<open>The conversions as the specification words them\<close>












text \<open>
  A number rounded to \<open>n\<close> decimal places: the nearest multiple of \<open>10^-n\<close>, a tie going up.
\<close>

definition round_places :: "nat \<Rightarrow> real \<Rightarrow> real" where
  "round_places n x = of_int \<lfloor>x * 10 ^ n + 1 / 2\<rfloor> / 10 ^ n"

text \<open>The chroma, the middle component of an \<^verbatim>\<open>{l, c, h}\<close> object.\<close>

definition chroma :: "triple \<Rightarrow> real" where
  "chroma t = fst (snd t)"

section \<open>Properties of the de-duplication\<close>

subsection \<open>Keys of the map\<close>

lemma keys_dedupe_step:
  "map fst (dedupe_step m c) =
     (if key_of c \<in> set (map fst m) then map fst m else map fst m @ [key_of c])"
  by (auto simp: dedupe_step_def key_of_def Let_def AList.update_keys map_of_eq_None_iff
      split: option.splits dest: map_of_SomeD)

lemma removeAll_filter_conv: "removeAll k (filter P xs) = filter (\<lambda>x. P x \<and> x \<noteq> k) xs"
  by (induction xs) auto

lemma keys_foldl_dedupe:
  "map fst (foldl dedupe_step m cs) =
     map fst m @ first_occurrences (filter (\<lambda>k. k \<notin> set (map fst m)) (map key_of cs))"
proof (induction cs arbitrary: m)
  case Nil
  then show ?case by simp
next
  case (Cons c cs)
  show ?case
  proof (cases "key_of c \<in> set (map fst m)")
    case True
    then show ?thesis by (simp add: Cons.IH keys_dedupe_step)
  next
    case False
    have "(\<lambda>k. k \<noteq> key_of c \<and> k \<notin> fst ` set m) = (\<lambda>x. x \<notin> fst ` set m \<and> x \<noteq> key_of c)"
      by auto
    with False show ?thesis
      by (simp add: Cons.IH keys_dedupe_step removeAll_filter_conv)
  qed
qed

lemma keys_colorMap_of: "map fst (colorMap_of cs) = first_occurrences (map key_of cs)"
  by (simp add: colorMap_of_def keys_foldl_dedupe)

lemma key_of_merge [simp]: "key_of (keep_highest c (merge_labels c e)) = key_of e"
  by (simp add: key_of_def keep_highest_def merge_labels_def Let_def)

lemma set_update_subset: "set (AList.update k v m) \<subseteq> insert (k, v) (set m)"
  by (induction m) auto

lemma keyed_dedupe_step:
  assumes "\<And>k v. (k, v) \<in> set m \<Longrightarrow> k = key_of v" and "(k, v) \<in> set (dedupe_step m c)"
  shows "k = key_of v"
proof (cases "map_of m (key_of c)")
  case None
  then have "(k, v) \<in> insert (key_of c, c) (set m)"
    using assms(2) set_update_subset unfolding dedupe_step_def key_of_def by fastforce
  then show ?thesis using assms(1) by auto
next
  case (Some existing)
  then have "(k, v) \<in> insert (key_of c, keep_highest c (merge_labels c existing)) (set m)"
    using assms(2) set_update_subset unfolding dedupe_step_def key_of_def by fastforce
  moreover have "key_of existing = key_of c"
    using assms(1) map_of_SomeD[OF Some] by metis
  ultimately show ?thesis using assms(1) by auto
qed

lemma keyed_foldl:
  "(\<And>k v. (k, v) \<in> set m \<Longrightarrow> k = key_of v) \<Longrightarrow>
     (k, v) \<in> set (foldl dedupe_step m cs) \<Longrightarrow> k = key_of v"
proof (induction cs arbitrary: m)
  case Nil
  then show ?case by simp
next
  case (Cons c cs)
  have step: "\<And>k v. (k, v) \<in> set (dedupe_step m c) \<Longrightarrow> k = key_of v"
    using keyed_dedupe_step[of m _ _ c] Cons.prems(1) by blast
  from Cons.prems(2) have "(k, v) \<in> set (foldl dedupe_step (dedupe_step m c) cs)"
    by simp
  with step show ?case
    by (rule Cons.IH)
qed

lemma keyed_colorMap_of: "(k, v) \<in> set (colorMap_of cs) \<Longrightarrow> k = key_of v"
  unfolding colorMap_of_def by (rule keyed_foldl[of "[]"]) auto

lemma keys_uniqueColors: "map key_of (uniqueColors cs) = map fst (colorMap_of cs)"
proof -
  have "\<forall>p \<in> set (colorMap_of cs). key_of (snd p) = fst p"
    using keyed_colorMap_of by (metis prod.collapse)
  then show ?thesis
    unfolding uniqueColors_def by simp
qed

lemma set_first_occurrences: "set (first_occurrences xs) = set xs"
  by (induction xs rule: first_occurrences.induct) auto

lemma distinct_first_occurrences: "distinct (first_occurrences xs)"
  by (induction xs rule: first_occurrences.induct) (auto simp: set_first_occurrences)

lemma length_first_occurrences: "length (first_occurrences xs) = card (set xs)"
  using distinct_card[OF distinct_first_occurrences[of xs]] by (simp add: set_first_occurrences)

lemma sample_order_white_first:
  "map hex (uniqueColors [sample_third, sample_dark, sample_second]) = [''#FfFfFf'', ''#000000'']"
  by code_simp

lemma sample_order_dark_first:
  "map hex (uniqueColors [sample_dark, sample_third, sample_second]) = [''#000000'', ''#FfFfFf'']"
  by code_simp

text \<open>
  Claim C8. For every input sequence, the output sequence \<^verbatim>\<open>uniqueColors\<close> has exactly one
  entry for each distinct lower-cased hex key of the input, and the entries stand in the
  order in which the keys first occur in the input: nothing sorts them by confidence or
  by count. The key is the \<^verbatim>\<open>hex\<close> field in lower case: of the samples, \<^verbatim>\<open>#FfFfFf\<close> (low) and
  \<^verbatim>\<open>#ffffff\<close> (medium) make one entry, which stands before the black one (high) when it
  comes first and after it when it comes second.
\<close>

theorem uniqueColors_first_occurrence_order:
  "map (\<lambda>c. toLowerCase (hex c)) (uniqueColors allColors)
     = first_occurrences (map (\<lambda>c. toLowerCase (hex c)) allColors)
   \<and> distinct (map (\<lambda>c. toLowerCase (hex c)) (uniqueColors allColors))
   \<and> set (map (\<lambda>c. toLowerCase (hex c)) (uniqueColors allColors))
       = set (map (\<lambda>c. toLowerCase (hex c)) allColors)
   \<and> length (uniqueColors allColors) = card (set (map (\<lambda>c. toLowerCase (hex c)) allColors))
   \<and> map hex (uniqueColors [sample_third, sample_dark, sample_second]) = [''#FfFfFf'', ''#000000'']
   \<and> map hex (uniqueColors [sample_dark, sample_third, sample_second]) = [''#000000'', ''#FfFfFf'']"
proof -
  let ?key = "\<lambda>c. toLowerCase (hex c)"
  have k: "map ?key (uniqueColors allColors) = first_occurrences (map ?key allColors)"
    using keys_uniqueColors[of allColors] keys_colorMap_of[of allColors]
    unfolding key_of_def[abs_def] by simp
  have "length (uniqueColors allColors) = length (map ?key (uniqueColors allColors))"
    by simp
  also have "\<dots> = card (set (map ?key allColors))"
    unfolding k by (rule length_first_occurrences)
  finally have l: "length (uniqueColors allColors) = card (set (map ?key allColors))" .
  show ?thesis
    unfolding k using l sample_order_white_first sample_order_dark_first
    by (simp only: distinct_first_occurrences set_first_occurrences simp_thms)
qed

theorem uniqueColors_first_occurrence_order_witness:
  "map hex [sample_third, sample_dark, sample_second] = [''#FfFfFf'', ''#000000'', ''#ffffff'']
   \<and> map (\<lambda>c. toLowerCase (hex c)) (uniqueColors [sample_third, sample_dark, sample_second])
       = [''#ffffff'', ''#000000'']
   \<and> length (uniqueColors [sample_third, sample_dark, sample_second]) = 2
   \<and> map hex (uniqueColors [sample_third, sample_dark, sample_second]) = [''#FfFfFf'', ''#000000'']"
proof -
  note inst = uniqueColors_first_occurrence_order[of "[sample_third, sample_dark, sample_second]"]
  have h: "map hex [sample_third, sample_dark, sample_second] = [''#FfFfFf'', ''#000000'', ''#ffffff'']"
    by (simp add: sample_third_def sample_dark_def sample_second_def)
  have f: "first_occurrences (map (\<lambda>c. toLowerCase (hex c)) [sample_third, sample_dark, sample_second])
      = [''#ffffff'', ''#000000'']"
    by code_simp
  have c: "card (set (map (\<lambda>c. toLowerCase (hex c)) [sample_third, sample_dark, sample_second])) = 2"
    by code_simp
  from inst have "map (\<lambda>c. toLowerCase (hex c)) (uniqueColors [sample_third, sample_dark, sample_second])
      = first_occurrences (map (\<lambda>c. toLowerCase (hex c)) [sample_third, sample_dark, sample_second])"
    by (rule conjunct1)
  then have a: "map (\<lambda>c. toLowerCase (hex c)) (uniqueColors [sample_third, sample_dark, sample_second])
      = [''#ffffff'', ''#000000'']"
    unfolding f .
  from inst have "length (uniqueColors [sample_third, sample_dark, sample_second])
      = card (set (map (\<lambda>c. toLowerCase (hex c)) [sample_third, sample_dark, sample_second]))"
    by blast
  then have b: "length (uniqueColors [sample_third, sample_dark, sample_second]) = 2"
    unfolding c .
  from inst have d: "map hex (uniqueColors [sample_third, sample_dark, sample_second]) = [''#FfFfFf'', ''#000000'']"
    by blast
  from h a b d show ?thesis by blast
qed

subsection \<open>Sample run\<close>

lemma key_of_samples: "key_of sample_first = ''#ffffff''" "key_of sample_second = ''#ffffff''"
  by code_simp+



lemma colorMap_of_sample_first:
  "colorMap_of [sample_first] = [(''#ffffff'', sample_first)]"
  using key_of_samples(1) by (simp add: colorMap_of_def dedupe_step_def key_of_def)

lemma colorMap_of_samples:
  "colorMap_of [sample_first, sample_second] =
     [(''#ffffff'', sample_first\<lparr>label := ''Primary, Accent''\<rparr>)]"
  using key_of_samples
  by (simp add: colorMap_of_def dedupe_step_def key_of_def)
     (simp add: sample_first_def sample_second_def keep_highest_def merge_labels_def split_labels_def)

subsection \<open>What a collision leaves alone\<close>

lemma same_origin_merge: "same_origin (keep_highest c (merge_labels c e)) e"
  by (simp add: same_origin_def keep_highest_def merge_labels_def Let_def)

lemma same_origin_refl: "same_origin e e"
  by (simp add: same_origin_def)

lemma same_origin_trans: "same_origin a b \<Longrightarrow> same_origin b c \<Longrightarrow> same_origin a c"
  by (simp add: same_origin_def)

lemma dedupe_step_entry:
  assumes "(k, e) \<in> set (dedupe_step m c)"
  shows "(\<exists>e0. (k, e0) \<in> set m \<and> same_origin e e0) \<or> (k \<notin> fst ` set m \<and> k = key_of c \<and> e = c)"
proof (cases "map_of m (key_of c)")
  case None
  then have "(k, e) \<in> insert (key_of c, c) (set m)"
    using assms set_update_subset unfolding dedupe_step_def key_of_def by fastforce
  moreover have "key_of c \<notin> fst ` set m"
    using None by (simp add: map_of_eq_None_iff)
  ultimately show ?thesis
    using same_origin_refl by auto
next
  case (Some existing)
  then have "(k, e) \<in> insert (key_of c, keep_highest c (merge_labels c existing)) (set m)"
    using assms set_update_subset unfolding dedupe_step_def key_of_def by fastforce
  moreover have "(key_of c, existing) \<in> set m"
    using Some by (rule map_of_SomeD)
  ultimately show ?thesis
    using same_origin_refl same_origin_merge by auto
qed

lemma foldl_dedupe_entry:
  "(k, e) \<in> set (foldl dedupe_step m cs) \<Longrightarrow>
     (\<exists>e0. (k, e0) \<in> set m \<and> same_origin e e0) \<or>
     (k \<notin> fst ` set m \<and> (\<exists>c. find (\<lambda>c. key_of c = k) cs = Some c \<and> same_origin e c))"
proof (induction cs arbitrary: m)
  case Nil
  then show ?case using same_origin_refl by auto
next
  case (Cons c cs)
  from Cons.prems have "(k, e) \<in> set (foldl dedupe_step (dedupe_step m c) cs)"
    by simp
  from Cons.IH[OF this] consider
    (old) e1 where "(k, e1) \<in> set (dedupe_step m c)" "same_origin e e1"
    | (new) c' where "k \<notin> fst ` set (dedupe_step m c)" "find (\<lambda>c. key_of c = k) cs = Some c'" "same_origin e c'"
    by blast
  then show ?case
  proof cases
    case old
    from dedupe_step_entry[OF old(1)] show ?thesis
    proof
      assume "\<exists>e0. (k, e0) \<in> set m \<and> same_origin e1 e0"
      then show ?thesis using old(2) same_origin_trans by blast
    next
      assume "k \<notin> fst ` set m \<and> k = key_of c \<and> e1 = c"
      then show ?thesis using old(2) by auto
    qed
  next
    case new
    have keys: "fst ` set (dedupe_step m c) = insert (key_of c) (fst ` set m)"
      by (simp add: dedupe_step_def key_of_def Let_def AList.dom_update split: option.splits)
    with new(1) have "k \<noteq> key_of c" "k \<notin> fst ` set m" by auto
    then show ?thesis using new(2,3) by auto
  qed
qed

text \<open>
  Claim C10. In one pass, a key collision changes nothing of the existing entry but its
  label and its confidence: every entry of the output has the \<^verbatim>\<open>hex\<close>, \<^verbatim>\<open>rgb\<close>, \<^verbatim>\<open>lch\<close>,
  \<^verbatim>\<open>oklch\<close> and \<^verbatim>\<open>hasAlpha\<close> fields (and the \<^verbatim>\<open>type\<close>) of the first object of the input that
  has its lower-cased hex key, whatever duplicates follow.
\<close>

theorem collision_keeps_first_formats:
  "(\<forall>e \<in> set (uniqueColors allColors).
      \<exists>c. find (\<lambda>c. key_of c = key_of e) allColors = Some c
        \<and> hex e = hex c \<and> rgb e = rgb c \<and> lch e = lch c \<and> oklch e = oklch c
        \<and> hasAlpha e = hasAlpha c \<and> type e = type c)
   \<and> (\<forall>colorMap c existing. map_of colorMap (key_of c) = Some existing \<longrightarrow>
        (\<exists>l q. dedupe_step colorMap c =
           AList.update (key_of c) (existing\<lparr>label := l, confidence := q\<rparr>) colorMap))"
proof (intro conjI ballI allI impI)
  fix e assume "e \<in> set (uniqueColors allColors)"
  then obtain k where ke: "(k, e) \<in> set (colorMap_of allColors)"
    unfolding uniqueColors_def by auto
  then have k: "k = key_of e" by (rule keyed_colorMap_of)
  from ke have "(k, e) \<in> set (foldl dedupe_step [] allColors)"
    by (simp add: colorMap_of_def)
  from foldl_dedupe_entry[OF this] k
  show "\<exists>c. find (\<lambda>c. key_of c = key_of e) allColors = Some c
        \<and> hex e = hex c \<and> rgb e = rgb c \<and> lch e = lch c \<and> oklch e = oklch c
        \<and> hasAlpha e = hasAlpha c \<and> type e = type c"
    by (auto simp: same_origin_def)
next
  fix colorMap :: "(string \<times> color) list" and c existing :: color
  assume "map_of colorMap (key_of c) = Some existing"
  then have "dedupe_step colorMap c = AList.update (key_of c)
      (existing\<lparr>label := label (keep_highest c (merge_labels c existing)),
         confidence := confidence (keep_highest c (merge_labels c existing))\<rparr>) colorMap"
    by (simp add: dedupe_step_def key_of_def keep_highest_def merge_labels_def Let_def)
  then show "\<exists>l q. dedupe_step colorMap c =
           AList.update (key_of c) (existing\<lparr>label := l, confidence := q\<rparr>) colorMap"
    by blast
qed

theorem collision_keeps_first_formats_witness:
  "uniqueColors [sample_first, sample_second] = [sample_first\<lparr>label := ''Primary, Accent''\<rparr>]
   \<and> find (\<lambda>c. key_of c = ''#ffffff'') [sample_first, sample_second] = Some sample_first
   \<and> rgb (sample_first\<lparr>label := ''Primary, Accent''\<rparr>) = ''rgb(255, 255, 255)''"
proof -
  have u: "uniqueColors [sample_first, sample_second] = [sample_first\<lparr>label := ''Primary, Accent''\<rparr>]"
    by (simp add: uniqueColors_def colorMap_of_samples)
  have k: "key_of (sample_first\<lparr>label := ''Primary, Accent''\<rparr>) = ''#ffffff''"
    using key_of_samples(1) by (simp add: key_of_def)
  have f: "find (\<lambda>c. key_of c = ''#ffffff'') [sample_first, sample_second] = Some sample_first"
    by (simp add: key_of_samples)
  from collision_keeps_first_formats[of "[sample_first, sample_second]"]
  have "\<forall>e \<in> set (uniqueColors [sample_first, sample_second]).
          \<exists>c. find (\<lambda>c. key_of c = key_of e) [sample_first, sample_second] = Some c
            \<and> rgb e = rgb c"
    by blast
  then have "\<exists>c. find (\<lambda>c. key_of c = ''#ffffff'') [sample_first, sample_second] = Some c
          \<and> rgb (sample_first\<lparr>label := ''Primary, Accent''\<rparr>) = rgb c"
    unfolding u by (simp only: k list.set ball_simps)
  then have "rgb (sample_first\<lparr>label := ''Primary, Accent''\<rparr>) = rgb sample_first"
    unfolding f by simp
  then have "rgb (sample_first\<lparr>label := ''Primary, Accent''\<rparr>) = ''rgb(255, 255, 255)''"
    by (simp add: sample_first_def)
  with u f show ?thesis
    by simp
qed

subsection \<open>Confidence\<close>

lemma dedupe_step_collision:
  "map_of m (key_of c) = Some existing \<Longrightarrow>
     map_of (dedupe_step m c) = (map_of m)(key_of c \<mapsto> keep_highest c (merge_labels c existing))"
  by (simp add: dedupe_step_def key_of_def AList.update_conv')



lemma confidence_merge_labels [simp]: "confidence (merge_labels c e) = confidence e"
  by (simp add: merge_labels_def Let_def)

lemma label_keep_highest [simp]: "label (keep_highest c e) = label e"
  by (simp add: keep_highest_def)








subsection \<open>Labels\<close>

lemma split_from_append:
  "split_from acc (a @ '', '' @ b) = split_from acc a @ split_from [] b"
proof (induction acc a rule: split_from.induct)
  case (1 acc)
  then show ?case by simp
next
  case (2 acc c cs)
  then show ?case
    by (cases cs) auto
qed

lemma split_labels_append:
  "split_labels (a @ '', '' @ b) = split_labels a @ split_labels b"
  unfolding split_labels_def by (rule split_from_append)

lemma label_merge_labels:
  "label (merge_labels c e) =
     (if label c = [] then label e
      else if label e = [] then label c
      else if label c \<in> set (split_labels (label e)) then label e
      else label e @ '', '' @ label c)"
  by (simp add: merge_labels_def Let_def)

text \<open>
  Claim C6. When an incoming object collides with an entry on the lower-cased hex key:
  an entry with an empty label takes a non-empty incoming label; when both labels are
  non-empty, the incoming label is appended after \<^verbatim>\<open>", "\<close> unless it already is one of the
  pieces of the existing label between the separators \<^verbatim>\<open>", "\<close> (compared as strings, case
  included), and then the pieces of the new label are those of the existing label followed
  by those of the incoming one. Labels Primary then Primary give Primary, and Primary
  then Accent give \<^verbatim>\<open>Primary, Accent\<close>, whatever the two confidences are.
\<close>

theorem label_merge_on_collision:
  "(\<forall>colorMap c existing. map_of colorMap (key_of c) = Some existing \<longrightarrow>
      (\<exists>e'. map_of (dedupe_step colorMap c) (key_of c) = Some e'
         \<and> label e' =
             (if label c = [] then label existing
              else if label existing = [] then label c
              else if label c \<in> set (split_labels (label existing)) then label existing
              else label existing @ '', '' @ label c)
         \<and> (label c \<noteq> [] \<and> label existing \<noteq> [] \<and> label c \<notin> set (split_labels (label existing))
              \<longrightarrow> split_labels (label e') = split_labels (label existing) @ split_labels (label c))))
   \<and> (\<forall>a b. key_of a = key_of b \<and> label a = ''Primary'' \<and> label b = ''Primary''
         \<longrightarrow> map label (uniqueColors [a, b]) = [''Primary''])
   \<and> (\<forall>a b. key_of a = key_of b \<and> label a = ''Primary'' \<and> label b = ''Accent''
         \<longrightarrow> map label (uniqueColors [a, b]) = [''Primary, Accent''])"
proof (intro conjI allI impI)
  fix colorMap :: "(string \<times> color) list" and c existing :: color
  assume "map_of colorMap (key_of c) = Some existing"
  then show "\<exists>e'. map_of (dedupe_step colorMap c) (key_of c) = Some e'
         \<and> label e' =
             (if label c = [] then label existing
              else if label existing = [] then label c
              else if label c \<in> set (split_labels (label existing)) then label existing
              else label existing @ '', '' @ label c)
         \<and> (label c \<noteq> [] \<and> label existing \<noteq> [] \<and> label c \<notin> set (split_labels (label existing))
              \<longrightarrow> split_labels (label e') = split_labels (label existing) @ split_labels (label c))"
    by (simp add: dedupe_step_collision label_merge_labels split_labels_append del: append.simps)
next
  fix a b :: color
  assume "key_of a = key_of b \<and> label a = ''Primary'' \<and> label b = ''Primary''"
  then show "map label (uniqueColors [a, b]) = [''Primary'']"
    by (simp add: uniqueColors_def colorMap_of_def dedupe_step_def key_of_def label_merge_labels split_labels_def)
next
  fix a b :: color
  assume "key_of a = key_of b \<and> label a = ''Primary'' \<and> label b = ''Accent''"
  then show "map label (uniqueColors [a, b]) = [''Primary, Accent'']"
    by (simp add: uniqueColors_def colorMap_of_def dedupe_step_def key_of_def label_merge_labels split_labels_def)
qed

theorem label_merge_on_collision_witness:
  "key_of sample_first = key_of sample_second
   \<and> label sample_first = ''Primary'' \<and> label sample_second = ''Accent''
   \<and> map label (uniqueColors [sample_first, sample_second]) = [''Primary, Accent'']"
proof -
  have a: "key_of sample_first = key_of sample_second \<and> label sample_first = ''Primary''
      \<and> label sample_second = ''Accent''"
    by (simp add: key_of_samples) (simp add: sample_first_def sample_second_def)
  with label_merge_on_collision have "map label (uniqueColors [sample_first, sample_second]) = [''Primary, Accent'']"
    by blast
  with a show ?thesis by simp
qed

section \<open>Properties of the parser\<close>

subsection \<open>The pattern matcher decides the \<^verbatim>\<open>rgb()/rgba()\<close> grammar\<close>

lemma expect_Some: "expect lit s = Some t \<longleftrightarrow> s = lit @ t"
  unfolding expect_def
  by (metis append_eq_conv_conj append_take_drop_id option.distinct(1) option.inject)

lemma expect_append [simp]: "expect lit (lit @ t) = Some t"
  by (simp add: expect_Some)

lemma many1_Some:
  "many1 P s = Some (m, t) \<Longrightarrow> s = m @ t \<and> m \<noteq> [] \<and> list_all P m"
  unfolding many1_def
  by (auto split: if_splits simp: list_all_iff dest: set_takeWhileD)

lemma takeWhile_stop:
  "list_all P m \<Longrightarrow> (t = [] \<or> \<not> P (hd t)) \<Longrightarrow> takeWhile P (m @ t) = m"
  by (induction m) (auto simp: takeWhile_eq_Nil_iff)

lemma dropWhile_stop:
  "list_all P m \<Longrightarrow> (t = [] \<or> \<not> P (hd t)) \<Longrightarrow> dropWhile P (m @ t) = t"
  by (induction m) (auto simp: dropWhile_eq_self_iff)

lemma many1_stop:
  "list_all P m \<Longrightarrow> m \<noteq> [] \<Longrightarrow> (t = [] \<or> \<not> P (hd t)) \<Longrightarrow> many1 P (m @ t) = Some (m, t)"
  by (simp add: many1_def takeWhile_stop dropWhile_stop)

lemma space_split: "dropWhile is_space s = t \<Longrightarrow> \<exists>w. s = w @ t \<and> list_all is_space w"
  by (rule exI[of _ "takeWhile is_space s"]) (auto simp: list_all_iff dest: set_takeWhileD)

lemma opt_a:
  assumes "(case expect ''a'' s of Some t \<Rightarrow> t | None \<Rightarrow> s) = x"
  shows "\<exists>a. s = a @ x \<and> (a = [] \<or> a = ''a'')"
proof (cases "expect ''a'' s")
  case None
  then show ?thesis using assms by simp
next
  case (Some t)
  then have "s = ''a'' @ t" by (simp add: expect_Some)
  with Some assms show ?thesis by (intro exI[of _ "''a''"]) simp
qed

lemma match_here_stages:
  assumes "match_here s = Some m"
  shows "\<exists>s1 s2 m1 s3 s4 m2 s5 s6 m3 s7.
    expect ''rgb'' s = Some s1 \<and>
    expect ''('' (case expect ''a'' s1 of Some t \<Rightarrow> t | None \<Rightarrow> s1) = Some s2 \<and>
    many1 is_digit s2 = Some (m1, s3) \<and>
    expect '','' s3 = Some s4 \<and>
    many1 is_digit (dropWhile is_space s4) = Some (m2, s5) \<and>
    expect '','' s5 = Some s6 \<and>
    many1 is_digit (dropWhile is_space s6) = Some (m3, s7) \<and>
    (case expect '','' s7 of
         Some t \<Rightarrow>
           Option.bind (many1 is_digit_or_dot (dropWhile is_space t)) (\<lambda>(m4, s).
           Option.bind (expect '')'' s) (\<lambda>_. Some (m1, m2, m3, Some m4)))
       | None \<Rightarrow> Option.bind (expect '')'' s7) (\<lambda>_. Some (m1, m2, m3, None))) = Some m"
  using assms unfolding match_here_def
  by (simp add: bind_eq_Some_conv)

lemma match_here_sound:
  assumes "match_here s = Some m"
  shows "\<exists>mid post. s = mid @ post \<and> rgb_pattern mid"
proof -
  from match_here_stages[OF assms] obtain s1 s2 m1 s3 s4 m2 s5 s6 m3 s7 where
    1: "expect ''rgb'' s = Some s1" and
    2: "expect ''('' (case expect ''a'' s1 of Some t \<Rightarrow> t | None \<Rightarrow> s1) = Some s2" and
    3: "many1 is_digit s2 = Some (m1, s3)" and
    4: "expect '','' s3 = Some s4" and
    5: "many1 is_digit (dropWhile is_space s4) = Some (m2, s5)" and
    6: "expect '','' s5 = Some s6" and
    7: "many1 is_digit (dropWhile is_space s6) = Some (m3, s7)" and
    8: "(case expect '','' s7 of
         Some t \<Rightarrow>
           Option.bind (many1 is_digit_or_dot (dropWhile is_space t)) (\<lambda>(m4, s).
           Option.bind (expect '')'' s) (\<lambda>_. Some (m1, m2, m3, Some m4)))
       | None \<Rightarrow> Option.bind (expect '')'' s7) (\<lambda>_. Some (m1, m2, m3, None))) = Some m"
    by blast
  have e1: "s = ''rgb'' @ s1"
    using 1 by (simp only: expect_Some)
  from 2 have "(case expect ''a'' s1 of Some t \<Rightarrow> t | None \<Rightarrow> s1) = ''('' @ s2"
    by (simp only: expect_Some)
  from opt_a[OF this] obtain a where e2: "s1 = a @ ''('' @ s2" and a: "a = [] \<or> a = ''a''"
    by blast
  have e3: "s2 = m1 @ s3" and m1: "m1 \<noteq> []" "list_all is_digit m1"
    using many1_Some[OF 3] by simp_all
  have e4: "s3 = '','' @ s4"
    using 4 by (simp only: expect_Some)
  have d5: "dropWhile is_space s4 = m2 @ s5" and m2: "m2 \<noteq> []" "list_all is_digit m2"
    using many1_Some[OF 5] by simp_all
  from space_split[OF d5] obtain w1 where e5: "s4 = w1 @ m2 @ s5" and w1: "list_all is_space w1"
    by blast
  have e6: "s5 = '','' @ s6"
    using 6 by (simp only: expect_Some)
  have d7: "dropWhile is_space s6 = m3 @ s7" and m3: "m3 \<noteq> []" "list_all is_digit m3"
    using many1_Some[OF 7] by simp_all
  from space_split[OF d7] obtain w2 where e7: "s6 = w2 @ m3 @ s7" and w2: "list_all is_space w2"
    by blast
  have s: "s = ''rgb'' @ a @ ''('' @ m1 @ '','' @ w1 @ m2 @ '','' @ w2 @ m3 @ s7"
    unfolding e1 e2 e3 e4 e5 e6 e7 by (rule refl)
  obtain t post where t: "s7 = t @ '')'' @ post"
     "t = [] \<or> (\<exists>w3 m4. t = '','' @ w3 @ m4 \<and> list_all is_space w3
               \<and> m4 \<noteq> [] \<and> list_all is_digit_or_dot m4)"
  proof (cases "expect '','' s7")
    case None
    with 8 obtain post where "s7 = '')'' @ post"
      by (auto simp: bind_eq_Some_conv expect_Some)
    then show ?thesis using that[of "[]" post] by simp
  next
    case (Some t0)
    with 8 obtain m4 s8 post where
      9: "many1 is_digit_or_dot (dropWhile is_space t0) = Some (m4, s8)" and
      10: "expect '')'' s8 = Some post"
      by (auto simp: bind_eq_Some_conv)
    have d9: "dropWhile is_space t0 = m4 @ s8" and m4: "m4 \<noteq> []" "list_all is_digit_or_dot m4"
      using many1_Some[OF 9] by simp_all
    from space_split[OF d9] obtain w3 where e9: "t0 = w3 @ m4 @ s8" and w3: "list_all is_space w3"
      by blast
    have e8: "s7 = '','' @ t0" using Some by (simp only: expect_Some)
    have e10: "s8 = '')'' @ post" using 10 by (simp only: expect_Some)
    have "s7 = ('','' @ w3 @ m4) @ '')'' @ post"
      unfolding e8 e9 e10 by simp
    then show ?thesis using that[of "'','' @ w3 @ m4" post] w3 m4 by blast
  qed
  have "s = (''rgb'' @ a @ ''('' @ m1 @ '','' @ w1 @ m2 @ '','' @ w2 @ m3 @ t @ '')'') @ post"
    unfolding s t(1) by simp
  moreover have "rgb_pattern (''rgb'' @ a @ ''('' @ m1 @ '','' @ w1 @ m2 @ '','' @ w2 @ m3 @ t @ '')'')"
    unfolding rgb_pattern_def using a m1 m2 m3 w1 w2 t(2) by blast
  ultimately show ?thesis by blast
qed

lemma not_digit [simp]: "\<not> is_digit CHR '',''" "\<not> is_digit CHR '')''" "\<not> is_digit CHR ''(''"
  "\<not> is_digit CHR ''.''"
  by (simp_all add: is_digit_def)

lemma not_digit_or_dot [simp]: "\<not> is_digit_or_dot CHR '')''" "\<not> is_digit_or_dot CHR ''(''"
  by (simp_all add: is_digit_or_dot_def)

lemma digits_dot_not_space: "list_all (\<lambda>c. \<not> is_space c) ''0123456789.''"
  by code_simp

lemma digit_or_dot_not_space: "is_digit_or_dot c \<Longrightarrow> \<not> is_space c"
  using digits_dot_not_space unfolding is_digit_or_dot_def is_digit_def list_all_iff by auto

lemma digit_not_space: "is_digit c \<Longrightarrow> \<not> is_space c"
  using digit_or_dot_not_space unfolding is_digit_or_dot_def by blast

lemma skip_space:
  "list_all is_space w \<Longrightarrow> m \<noteq> [] \<Longrightarrow> \<not> is_space (hd m) \<Longrightarrow> dropWhile is_space (w @ m @ t) = m @ t"
  by (rule dropWhile_stop) auto

lemma hd_digits: "m \<noteq> [] \<Longrightarrow> list_all P m \<Longrightarrow> P (hd m)"
  by (cases m) auto

lemma channel_step:
  assumes "list_all is_space w" "m \<noteq> []" "list_all is_digit m" "t = [] \<or> \<not> is_digit (hd t)"
  shows "many1 is_digit (dropWhile is_space (w @ m @ t)) = Some (m, t)"
proof -
  have "\<not> is_space (hd m)" using assms(2,3) hd_digits digit_not_space by blast
  then have "dropWhile is_space (w @ m @ t) = m @ t"
    using assms(1,2) by (rule skip_space[rotated 2])
  then show ?thesis using assms by (simp add: many1_stop)
qed

lemma alpha_step:
  assumes "list_all is_space w" "m \<noteq> []" "list_all is_digit_or_dot m" "t = [] \<or> \<not> is_digit_or_dot (hd t)"
  shows "many1 is_digit_or_dot (dropWhile is_space (w @ m @ t)) = Some (m, t)"
proof -
  have "\<not> is_space (hd m)" using assms(2,3) hd_digits digit_or_dot_not_space by blast
  then have "dropWhile is_space (w @ m @ t) = m @ t"
    using assms(1,2) by (rule skip_space[rotated 2])
  then show ?thesis using assms by (simp add: many1_stop)
qed

lemma match_here_complete:
  assumes a: "a = [] \<or> a = ''a''"
    and m1: "m1 \<noteq> []" "list_all is_digit m1"
    and w1: "list_all is_space w1" and m2: "m2 \<noteq> []" "list_all is_digit m2"
    and w2: "list_all is_space w2" and m3: "m3 \<noteq> []" "list_all is_digit m3"
    and t: "t = [] \<and> g = None \<or> (\<exists>w3 m4. t = '','' @ w3 @ m4 \<and> list_all is_space w3
               \<and> m4 \<noteq> [] \<and> list_all is_digit_or_dot m4 \<and> g = Some m4)"
  shows "match_here (''rgb'' @ a @ ''('' @ m1 @ '','' @ w1 @ m2 @ '','' @ w2 @ m3 @ t @ '')'' @ post)
           = Some (m1, m2, m3, g)"
proof -
  let ?r7 = "t @ '')'' @ post"
  let ?r6 = "w2 @ m3 @ ?r7"
  let ?r5 = "'','' @ ?r6"
  let ?r4 = "w1 @ m2 @ ?r5"
  let ?r3 = "'','' @ ?r4"
  let ?r2 = "m1 @ ?r3"
  let ?r1 = "a @ ''('' @ ?r2"
  have s1: "expect ''rgb'' (''rgb'' @ ?r1) = Some ?r1"
    by (rule expect_append)
  have s2: "expect ''('' (case expect ''a'' ?r1 of Some t \<Rightarrow> t | None \<Rightarrow> ?r1) = Some ?r2"
    using a by (auto simp: expect_def)
  have s3: "many1 is_digit ?r2 = Some (m1, ?r3)"
    using m1 by (intro many1_stop) auto
  have s4: "expect '','' ?r3 = Some ?r4"
    by (rule expect_append)
  have hd7: "?r7 = [] \<or> \<not> is_digit (hd ?r7)"
    using t by auto
  have s5: "many1 is_digit (dropWhile is_space ?r4) = Some (m2, ?r5)"
    using w1 m2 by (intro channel_step) auto
  have s6: "expect '','' ?r5 = Some ?r6"
    by (rule expect_append)
  have s7: "many1 is_digit (dropWhile is_space ?r6) = Some (m3, ?r7)"
    using w2 m3 hd7 by (intro channel_step) auto
  have s8: "(case expect '','' ?r7 of
         Some t \<Rightarrow>
           Option.bind (many1 is_digit_or_dot (dropWhile is_space t)) (\<lambda>(m4, s).
           Option.bind (expect '')'' s) (\<lambda>_. Some (m1, m2, m3, Some m4)))
       | None \<Rightarrow> Option.bind (expect '')'' ?r7) (\<lambda>_. Some (m1, m2, m3, None))) = Some (m1, m2, m3, g)"
    using t
  proof
    assume "t = [] \<and> g = None"
    then show ?thesis by (simp add: expect_def)
  next
    assume "\<exists>w3 m4. t = '','' @ w3 @ m4 \<and> list_all is_space w3
               \<and> m4 \<noteq> [] \<and> list_all is_digit_or_dot m4 \<and> g = Some m4"
    then obtain w3 m4 where t': "t = '','' @ w3 @ m4" "list_all is_space w3" "m4 \<noteq> []"
       "list_all is_digit_or_dot m4" "g = Some m4" by blast
    have r7: "?r7 = '','' @ w3 @ m4 @ '')'' @ post" using t'(1) by simp
    have "expect '','' ?r7 = Some (w3 @ m4 @ '')'' @ post)"
      unfolding r7 by (rule expect_append)
    moreover have "many1 is_digit_or_dot (dropWhile is_space (w3 @ m4 @ '')'' @ post)) = Some (m4, '')'' @ post)"
      using t'(2,3,4) by (intro alpha_step) auto
    moreover have "expect '')'' ('')'' @ post) = Some post"
      by (rule expect_append)
    ultimately show ?thesis using t'(5) by simp
  qed
  show ?thesis
    unfolding match_here_def s1 Option.bind.simps s2 s3 s4 s5 s6 s7 prod.case
    by (rule s8)
qed

lemma rgbaMatch_Some:
  "rgbaMatch s = Some m \<Longrightarrow> \<exists>pre post. s = pre @ post \<and> match_here post = Some m"
proof (induction s)
  case Nil
  then show ?case by simp
next
  case (Cons c cs)
  show ?case
  proof (cases "match_here (c # cs)")
    case None
    with Cons.prems have "rgbaMatch cs = Some m" by simp
    from Cons.IH[OF this] obtain pre post where "cs = pre @ post" "match_here post = Some m"
      by blast
    then have "c # cs = (c # pre) @ post \<and> match_here post = Some m" by simp
    then show ?thesis by blast
  next
    case (Some m')
    with Cons.prems have "m' = m" by simp
    with Some have "c # cs = [] @ (c # cs) \<and> match_here (c # cs) = Some m" by simp
    then show ?thesis by blast
  qed
qed

lemma rgbaMatch_found:
  "match_here post \<noteq> None \<Longrightarrow> rgbaMatch (pre @ post) \<noteq> None"
proof (induction pre)
  case Nil
  then show ?case by (cases post) auto
next
  case (Cons c pre)
  then show ?case by (auto split: option.splits)
qed

lemma rgbaMatch_iff: "rgbaMatch s \<noteq> None \<longleftrightarrow> contains_rgb_pattern s"
proof
  assume "rgbaMatch s \<noteq> None"
  then obtain m where "rgbaMatch s = Some m" by blast
  from rgbaMatch_Some[OF this] obtain pre post where "s = pre @ post" "match_here post = Some m"
    by blast
  with match_here_sound[of post m] show "contains_rgb_pattern s"
    unfolding contains_rgb_pattern_def by blast
next
  assume "contains_rgb_pattern s"
  then obtain pre mid post where s: "s = pre @ mid @ post" and "rgb_pattern mid"
    unfolding contains_rgb_pattern_def by blast
  then obtain a m1 w1 m2 w2 m3 t where
    mid: "mid = ''rgb'' @ a @ ''('' @ m1 @ '','' @ w1 @ m2 @ '','' @ w2 @ m3 @ t @ '')''"
    and p: "a = [] \<or> a = ''a''" "m1 \<noteq> []" "list_all is_digit m1"
      "list_all is_space w1" "m2 \<noteq> []" "list_all is_digit m2"
      "list_all is_space w2" "m3 \<noteq> []" "list_all is_digit m3"
    and t: "t = [] \<or> (\<exists>w3 m4. t = '','' @ w3 @ m4 \<and> list_all is_space w3
               \<and> m4 \<noteq> [] \<and> list_all is_digit_or_dot m4)"
    unfolding rgb_pattern_def by blast
  from t obtain g where "t = [] \<and> g = None \<or> (\<exists>w3 m4. t = '','' @ w3 @ m4 \<and> list_all is_space w3
               \<and> m4 \<noteq> [] \<and> list_all is_digit_or_dot m4 \<and> g = Some m4)"
    by blast
  from match_here_complete[OF p this, of post]
  have "match_here (mid @ post) \<noteq> None"
    unfolding mid by simp
  then show "rgbaMatch s \<noteq> None"
    unfolding s by (rule rgbaMatch_found)
qed

subsection \<open>When \<^verbatim>\<open>convertColor\<close> returns \<^verbatim>\<open>null\<close>\<close>

lemma hexToRgb_None_iff:
  "hexToRgb s = None \<longleftrightarrow> \<not> (\<exists>t. s = ''#'' @ t \<and> (length t = 3 \<or> length t = 6 \<or> length t = 8))"
proof (cases s)
  case Nil
  then show ?thesis by (simp add: hexToRgb_def)
next
  case (Cons c cs)
  then show ?thesis by (auto simp: hexToRgb_def Let_def)
qed

lemma convertColor_None_iff: "convertColor str s = None \<longleftrightarrow> parse_channels s = None"
  by (auto simp: convertColor_def Let_def split: option.splits)

lemma parse_channels_None_iff:
  "parse_channels s = None \<longleftrightarrow> rgbaMatch s = None \<and> hexToRgb s = None"
  by (auto simp: parse_channels_def split: option.splits)

lemma in_hex_grammar_shape:
  "in_hex_grammar s \<Longrightarrow> \<exists>t. s = ''#'' @ t \<and> (length t = 3 \<or> length t = 6 \<or> length t = 8)"
  unfolding in_hex_grammar_def by blast

lemma rgb_pattern_prefix: "rgb_pattern s \<Longrightarrow> take 3 s = ''rgb''"
  unfolding rgb_pattern_def by auto

lemma in_hex_grammar_prefix: "in_hex_grammar s \<Longrightarrow> take 1 s = ''#''"
  unfolding in_hex_grammar_def by auto

lemma hex_of_convertColor:
  "parse_channels s = Some (r, g, b, a) \<Longrightarrow>
     map_option hex (convertColor str s) =
       Some (toLowerCase (''#'' @ padStart2 (toString16 r) @ padStart2 (toString16 g) @ padStart2 (toString16 b)))"
  by (simp add: convertColor_def Let_def)

lemma gradient_channels: "parse_channels gradient = Some (Num 255, Num 0, Num 0, None)"
  by code_simp

lemma gradient_hex: "toLowerCase (''#'' @ padStart2 (toString16 (Num 255)) @ padStart2 (toString16 (Num 0)) @ padStart2 (toString16 (Num 0))) = ''#ff0000''"
  by code_simp

text \<open>
  Claim C1, as the code has it. \<^verbatim>\<open>convertColor(raw)\<close> returns a record for every string of
  the hex grammar and for every string that has, anywhere in it, a part in the
  \<^verbatim>\<open>rgb()/rgba()\<close> grammar; it returns \<^verbatim>\<open>null\<close> for every string that has no such part and is
  not \<^verbatim>\<open>#\<close> followed by exactly 3, 6 or 8 characters.
\<close>

theorem convertColor_null_cases:
  "(contains_rgb_pattern raw \<or> in_hex_grammar raw \<longrightarrow> convertColor str raw \<noteq> None)
   \<and> (\<not> contains_rgb_pattern raw
        \<and> \<not> (\<exists>t. raw = ''#'' @ t \<and> (length t = 3 \<or> length t = 6 \<or> length t = 8))
      \<longrightarrow> convertColor str raw = None)"
  unfolding convertColor_None_iff parse_channels_None_iff
  using rgbaMatch_iff[of raw] hexToRgb_None_iff[of raw] in_hex_grammar_shape[of raw]
  by blast

theorem convertColor_null_cases_witness:
  "contains_rgb_pattern gradient \<and> convertColor plain_str gradient \<noteq> None
   \<and> convertColor plain_str ''hsl(200,50%,50%)'' = None"
proof -
  have m: "rgbaMatch gradient \<noteq> None" by code_simp
  then have c: "contains_rgb_pattern gradient" by (simp only: rgbaMatch_iff)
  have n: "rgbaMatch ''hsl(200,50%,50%)'' = None" by code_simp
  then have "\<not> contains_rgb_pattern ''hsl(200,50%,50%)''" using rgbaMatch_iff by blast
  moreover have "\<not> (\<exists>t. ''hsl(200,50%,50%)'' = ''#'' @ t \<and> (length t = 3 \<or> length t = 6 \<or> length t = 8))"
    by simp
  ultimately show ?thesis
    using c convertColor_null_cases[of gradient plain_str] convertColor_null_cases[of "''hsl(200,50%,50%)''" plain_str] by blast
qed

text \<open>
  Claim C1 as stated fails: a gradient is in neither grammar, and \<^verbatim>\<open>convertColor\<close> returns
  the record of the first \<^verbatim>\<open>rgb(...)\<close> inside it.
\<close>

theorem convertColor_gradient_counterexample:
  "\<not> in_hex_grammar gradient \<and> \<not> rgb_pattern gradient
   \<and> map_option hex (convertColor plain_str gradient) = Some ''#ff0000''"
proof -
  have "\<not> in_hex_grammar gradient"
    using in_hex_grammar_prefix[of gradient] by (auto simp: gradient_def)
  moreover have "\<not> rgb_pattern gradient"
    using rgb_pattern_prefix[of gradient] by (auto simp: gradient_def)
  moreover have "map_option hex (convertColor plain_str gradient) = Some ''#ff0000''"
    unfolding hex_of_convertColor[OF gradient_channels] gradient_hex by (rule refl)
  ultimately show ?thesis by blast
qed

subsection \<open>Six-digit hex strings\<close>

lemma all_hex_chars:
  "list_all (\<lambda>c. hex_char_ok c \<and> \<not> is_space c \<and> c \<noteq> CHR ''+'' \<and> c \<noteq> CHR ''-''
      \<and> c \<noteq> CHR ''x'' \<and> c \<noteq> CHR ''X'' \<and> c \<noteq> CHR ''('' \<and> lower_char (lower_char c) = lower_char c)
     ''0123456789abcdefABCDEF''"
  by code_simp

lemma hex_char_facts:
  assumes "is_hex_digit c"
  shows "hex_char_ok c" "\<not> is_space c" "c \<noteq> CHR ''+''" "c \<noteq> CHR ''-''" "c \<noteq> CHR ''x''"
    "c \<noteq> CHR ''X''" "c \<noteq> CHR ''(''" "lower_char (lower_char c) = lower_char c"
  using assms all_hex_chars unfolding is_hex_digit_def list_all_iff by blast+

lemma hex_char_value:
  assumes "is_hex_digit c"
  obtains v where "digit_value c = Some v" "v < 16" "hex_digit v = lower_char c"
  using hex_char_facts(1)[OF assms] unfolding hex_char_ok_def by (auto split: option.splits)

lemma all_hex_values:
  "list_all (\<lambda>k. is_hex_digit (hex_digit k) \<and> digit_value (hex_digit k) = Some k
      \<and> lower_char (hex_digit k) = hex_digit k) [0..<16]"
  by code_simp

lemma hex_value_facts:
  assumes "k < 16"
  shows "is_hex_digit (hex_digit k)" "digit_value (hex_digit k) = Some k"
    "lower_char (hex_digit k) = hex_digit k"
  using assms all_hex_values unfolding list_all_iff by auto

lemma parseInt_hex_pair:
  assumes "is_hex_digit c" "is_hex_digit d" "digit_value c = Some v" "digit_value d = Some w"
  shows "parseInt [c, d] 16 = Num (real (16 * v + w))"
proof -
  have v: "v < 16"
    using hex_char_facts(1)[OF assms(1)] assms(3) by (simp add: hex_char_ok_def)
  have w: "w < 16"
    using hex_char_facts(1)[OF assms(2)] assms(4) by (simp add: hex_char_ok_def)
  have r: "is_radix_digit 16 c" "is_radix_digit 16 d"
    using assms(3,4) v w by (simp_all add: is_radix_digit_def)
  show ?thesis
    using hex_char_facts(2,3,4)[OF assms(1)] hex_char_facts(5,6)[OF assms(2)] r assms(3,4)
    by (simp add: parseInt_def Let_def digits_value_def)
qed

lemma to_base16_small: "n < 16 \<Longrightarrow> to_base16 n = [hex_digit n]"
  by (simp add: to_base16.simps)

lemma to_base16_byte:
  "n < 256 \<Longrightarrow> padStart2 (to_base16 n) = [hex_digit (n div 16), hex_digit (n mod 16)]"
proof (cases "n < 16")
  case True
  then show ?thesis by (simp add: to_base16_small padStart2_def hex_digit_def)
next
  case False
  assume "n < 256"
  then have "n div 16 < 16" by simp
  with False show ?thesis
    by (simp add: to_base16.simps[of n] to_base16_small padStart2_def)
qed

lemma toString16_nat: "toString16 (Num (real n)) = to_base16 n"
  by (simp add: toString16_def)

lemma hex_pair_roundtrip:
  assumes "is_hex_digit c" "is_hex_digit d"
  shows "padStart2 (toString16 (parseInt [c, d] 16)) = [lower_char c, lower_char d]"
proof -
  from hex_char_value[OF assms(1)] obtain v where
    v: "digit_value c = Some v" "v < 16" "hex_digit v = lower_char c" .
  from hex_char_value[OF assms(2)] obtain w where
    w: "digit_value d = Some w" "w < 16" "hex_digit w = lower_char d" .
  have "16 * v + w < 256" using v(2) w(2) by simp
  then have "padStart2 (to_base16 (16 * v + w)) = [hex_digit v, hex_digit w]"
    using w(2) by (simp add: to_base16_byte)
  then show ?thesis
    unfolding parseInt_hex_pair[OF assms v(1) w(1)] toString16_nat v(3) w(3) .
qed

lemma contains_rgb_pattern_paren: "contains_rgb_pattern s \<Longrightarrow> CHR ''('' \<in> set s"
  unfolding contains_rgb_pattern_def rgb_pattern_def by auto

lemma no_paren_no_match: "CHR ''('' \<notin> set s \<Longrightarrow> rgbaMatch s = None"
  using rgbaMatch_iff contains_rgb_pattern_paren by blast

lemma length6: "length ds = 6 \<Longrightarrow> \<exists>c1 c2 c3 c4 c5 c6. ds = [c1, c2, c3, c4, c5, c6]"
  by (auto simp: eval_nat_numeral length_Suc_conv)

lemma lower_hash: "lower_char CHR ''#'' = CHR ''#''"
  by code_simp

text \<open>
  Claim C3. For every string \<open>h\<close> that is \<^verbatim>\<open>#\<close> followed by exactly six hexadecimal digits,
  \<^verbatim>\<open>convertColor(h)\<close> succeeds and its \<^verbatim>\<open>hex\<close> field is \<open>h\<close> in lower case.
\<close>

theorem convertColor_hex6_lowercase:
  assumes "length ds = 6" "list_all is_hex_digit ds"
  shows "\<exists>rec. convertColor str (''#'' @ ds) = Some rec \<and> hex rec = toLowerCase (''#'' @ ds)"
proof -
  from length6[OF assms(1)] obtain c1 c2 c3 c4 c5 c6 where ds: "ds = [c1, c2, c3, c4, c5, c6]"
    by blast
  have h: "is_hex_digit c1" "is_hex_digit c2" "is_hex_digit c3" "is_hex_digit c4" "is_hex_digit c5"
    "is_hex_digit c6"
    using assms(2) ds by simp_all
  have "CHR ''('' \<notin> set (''#'' @ ds)"
    using h hex_char_facts(7) ds by auto
  then have m: "rgbaMatch (''#'' @ ds) = None"
    by (rule no_paren_no_match)
  have p: "parse_channels (''#'' @ ds) =
      Some (parseInt [c1, c2] 16, parseInt [c3, c4] 16, parseInt [c5, c6] 16, None)"
    unfolding parse_channels_def m by (simp add: hexToRgb_def ds slice_def)
  have "map_option hex (convertColor str (''#'' @ ds)) = Some (toLowerCase (''#'' @ ds))"
    unfolding hex_of_convertColor[OF p] hex_pair_roundtrip[OF h(1,2)] hex_pair_roundtrip[OF h(3,4)]
      hex_pair_roundtrip[OF h(5,6)]
    using h by (simp add: toLowerCase_def ds lower_hash hex_char_facts(8))
  then show ?thesis by auto
qed

theorem convertColor_hex6_lowercase_witness:
  "\<exists>rec. convertColor plain_str ''#FFaa09'' = Some rec \<and> hex rec = ''#ffaa09''"
proof -
  have l: "length ''FFaa09'' = 6" by simp
  have d: "list_all is_hex_digit ''FFaa09''" by (simp add: is_hex_digit_def)
  have t: "toLowerCase (''#'' @ ''FFaa09'') = ''#ffaa09''" by code_simp
  from convertColor_hex6_lowercase[OF l d, of plain_str] show ?thesis
    unfolding t by simp
qed

subsection \<open>Converting the hex field again\<close>

lemma int_like_simps: "int_like NaN" "int_like (Num (real n))" "int_like (Num (- real n))"
  unfolding int_like_def by blast+

lemma int_like_parseInt: "int_like (parseInt s R)"
  unfolding parseInt_def by (simp add: Let_def int_like_simps)

lemma parseInt_shape:
  "parseInt s R = NaN \<or> (\<exists>n. parseInt s R = Num (real n) \<or> parseInt s R = Num (- real n))"
  using int_like_parseInt[of s R] unfolding int_like_def .

lemma hexToRgb_shape:
  assumes "hexToRgb s = Some (r, g, b, a)"
  shows "\<exists>s1 s2 s3. r = parseInt s1 16 \<and> g = parseInt s2 16 \<and> b = parseInt s3 16"
  using assms unfolding hexToRgb_def Let_def by (auto split: if_splits)

lemma parse_channels_shape:
  assumes "parse_channels s = Some (r, g, b, a)"
  shows "\<exists>s1 s2 s3 R. r = parseInt s1 R \<and> g = parseInt s2 R \<and> b = parseInt s3 R"
proof (cases "rgbaMatch s")
  case None
  with assms have "hexToRgb s = Some (r, g, b, a)" by (simp add: parse_channels_def)
  from hexToRgb_shape[OF this] show ?thesis by blast
next
  case (Some m)
  with assms show ?thesis
    by (cases m) (auto simp: parse_channels_def)
qed

lemma length_to_base16_pos: "1 \<le> length (to_base16 n)"
  by (subst to_base16.simps) simp

lemma length_to_base16_2: "16 \<le> n \<Longrightarrow> 2 \<le> length (to_base16 n)"
proof -
  assume n: "16 \<le> n"
  have "to_base16 n = to_base16 (n div 16) @ [hex_digit (n mod 16)]"
    using n by (subst to_base16.simps) simp
  then show ?thesis
    using length_to_base16_pos[of "n div 16"] by simp
qed

lemma length_to_base16_3: "256 \<le> n \<Longrightarrow> 3 \<le> length (to_base16 n)"
proof -
  assume n: "256 \<le> n"
  have "to_base16 n = to_base16 (n div 16) @ [hex_digit (n mod 16)]"
    using n by (subst to_base16.simps) simp
  moreover have "16 \<le> n div 16" using n by simp
  ultimately show ?thesis
    using length_to_base16_2[of "n div 16"] by simp
qed

lemma length_padStart2: "length (padStart2 s) = max 2 (length s)"
  by (simp add: padStart2_def)

lemma lower_minus: "lower_char CHR ''-'' = CHR ''-''"
  by code_simp

lemma minus_facts: "\<not> is_space CHR ''-''"
  by code_simp

lemma parseInt_neg_digit:
  assumes "0 < k" "k < 16"
  shows "parseInt [CHR ''-'', hex_digit k] 16 = Num (- real k)"
proof -
  have d: "digit_value (hex_digit k) = Some k" "is_hex_digit (hex_digit k)"
    using hex_value_facts[OF assms(2)] by simp_all
  have r: "is_radix_digit 16 (hex_digit k)"
    using d(1) assms(2) by (simp add: is_radix_digit_def)
  show ?thesis
    using minus_facts r d(1)
    by (simp add: parseInt_def Let_def digits_value_def)
qed

lemma two_chars_byte:
  assumes "n < 256"
  shows "two_chars (Num (real n))"
proof -
  have q: "n div 16 < 16" using assms by simp
  have m: "n mod 16 < 16" by simp
  have p: "padStart2 (toString16 (Num (real n))) = [hex_digit (n div 16), hex_digit (n mod 16)]"
    using assms by (simp add: toString16_nat to_base16_byte)
  have "parseInt [hex_digit (n div 16), hex_digit (n mod 16)] 16 = Num (real (16 * (n div 16) + n mod 16))"
    using hex_value_facts[OF q] hex_value_facts[OF m] by (intro parseInt_hex_pair) simp_all
  then have "parseInt [hex_digit (n div 16), hex_digit (n mod 16)] 16 = Num (real n)"
    by simp
  then show ?thesis
    unfolding two_chars_def p
    using hex_value_facts[OF q] hex_value_facts[OF m] hex_char_facts(7) by auto
qed

lemma two_chars_neg:
  assumes "0 < k" "k < 16"
  shows "two_chars (Num (- real k))"
proof -
  have p: "padStart2 (toString16 (Num (- real k))) = [CHR ''-'', hex_digit k]"
    using assms by (simp add: toString16_def to_base16_small padStart2_def)
  show ?thesis
    unfolding two_chars_def p
    using parseInt_neg_digit[OF assms] lower_minus hex_value_facts[OF assms(2)] hex_char_facts(7)
    by auto
qed

lemma two_chars_parseInt:
  assumes "length (padStart2 (toString16 (parseInt s R))) = 2"
  shows "two_chars (parseInt s R)"
proof -
  from parseInt_shape[of s R] consider "parseInt s R = NaN"
    | n where "parseInt s R = Num (real n)" | n where "parseInt s R = Num (- real n)" "0 < n"
    by (metis neg_0_equal_iff_equal of_nat_0 not_gr_zero)
  then show ?thesis
  proof cases
    case 1
    with assms show ?thesis by (simp add: toString16_def padStart2_def)
  next
    case 2
    have "n < 256"
    proof (rule ccontr)
      assume "\<not> n < 256"
      then have "3 \<le> length (to_base16 n)" by (simp add: length_to_base16_3)
      with assms 2 show False by (simp add: toString16_nat length_padStart2)
    qed
    then show ?thesis unfolding 2 by (rule two_chars_byte)
  next
    case 3
    have "n < 16"
    proof (rule ccontr)
      assume "\<not> n < 16"
      then have "2 \<le> length (to_base16 n)" by (simp add: length_to_base16_2)
      with assms 3 show False by (simp add: toString16_def length_padStart2)
    qed
    with 3(2) show ?thesis unfolding 3(1) by (rule two_chars_neg)
  qed
qed

lemma convertColor_SomeD:
  assumes "convertColor str x = Some rec"
  obtains r g b a where "parse_channels x = Some (r, g, b, a)"
    "hex rec = toLowerCase (''#'' @ padStart2 (toString16 r) @ padStart2 (toString16 g) @ padStart2 (toString16 b))"
proof -
  from assms obtain r g b a where p: "parse_channels x = Some (r, g, b, a)"
    by (cases "parse_channels x") (auto simp: convertColor_def)
  from hex_of_convertColor[OF p, of str] assms
  have "hex rec = toLowerCase (''#'' @ padStart2 (toString16 r) @ padStart2 (toString16 g) @ padStart2 (toString16 b))"
    by simp
  with p show ?thesis by (rule that)
qed

lemma hex_fixpoint:
  assumes "two_chars r" "two_chars g" "two_chars b"
  defines "h \<equiv> toLowerCase (''#'' @ padStart2 (toString16 r) @ padStart2 (toString16 g) @ padStart2 (toString16 b))"
  shows "map_option hex (convertColor str h) = Some h"
proof -
  from assms(1) obtain c1 d1 where r: "padStart2 (toString16 r) = [c1, d1]"
    "lower_char c1 = c1" "lower_char d1 = d1" "c1 \<noteq> CHR ''(''" "d1 \<noteq> CHR ''(''" "parseInt [c1, d1] 16 = r"
    unfolding two_chars_def by blast
  from assms(2) obtain c2 d2 where g: "padStart2 (toString16 g) = [c2, d2]"
    "lower_char c2 = c2" "lower_char d2 = d2" "c2 \<noteq> CHR ''(''" "d2 \<noteq> CHR ''(''" "parseInt [c2, d2] 16 = g"
    unfolding two_chars_def by blast
  from assms(3) obtain c3 d3 where b: "padStart2 (toString16 b) = [c3, d3]"
    "lower_char c3 = c3" "lower_char d3 = d3" "c3 \<noteq> CHR ''(''" "d3 \<noteq> CHR ''(''" "parseInt [c3, d3] 16 = b"
    unfolding two_chars_def by blast
  have h: "h = [CHR ''#'', c1, d1, c2, d2, c3, d3]"
    unfolding h_def r(1) g(1) b(1) by (simp add: toLowerCase_def lower_hash r g b)
  have "CHR ''('' \<notin> set h"
    unfolding h using r(4,5) g(4,5) b(4,5) by simp
  then have m: "rgbaMatch h = None"
    by (rule no_paren_no_match)
  have p: "parse_channels h = Some (r, g, b, None)"
    unfolding parse_channels_def m by (simp add: h hexToRgb_def slice_def r(6) g(6) b(6))
  show ?thesis
    unfolding hex_of_convertColor[OF p] by (simp add: h_def)
qed

text \<open>
  Claim C5, as the code has it. Whenever \<^verbatim>\<open>convertColor(x)\<close> succeeds and its \<^verbatim>\<open>hex\<close> field has
  seven characters (\<^verbatim>\<open>#\<close> and two for each channel), \<^verbatim>\<open>convertColor\<close> of that field succeeds
  and has the same \<^verbatim>\<open>hex\<close> field; the field has seven characters whenever the three
  channels are integers from 0 to 255.
\<close>

theorem convertColor_hex_idempotent:
  "(\<forall>rec. convertColor str x = Some rec \<and> length (hex rec) = 7 \<longrightarrow>
      (\<exists>rec'. convertColor str (hex rec) = Some rec' \<and> hex rec' = hex rec))
   \<and> (\<forall>r g b a. parse_channels x = Some (Num (real r), Num (real g), Num (real b), a)
         \<and> r < 256 \<and> g < 256 \<and> b < 256 \<longrightarrow>
      (\<exists>rec. convertColor str x = Some rec \<and> length (hex rec) = 7))"
proof (intro conjI allI impI)
  fix rec assume a: "convertColor str x = Some rec \<and> length (hex rec) = 7"
  from convertColor_SomeD[of str x rec] a obtain r g b al where
    p: "parse_channels x = Some (r, g, b, al)" and
    h: "hex rec = toLowerCase (''#'' @ padStart2 (toString16 r) @ padStart2 (toString16 g) @ padStart2 (toString16 b))"
    by blast
  from a h have "length (padStart2 (toString16 r)) + length (padStart2 (toString16 g))
      + length (padStart2 (toString16 b)) = 6"
    by (simp add: toLowerCase_def)
  then have l: "length (padStart2 (toString16 r)) = 2" "length (padStart2 (toString16 g)) = 2"
    "length (padStart2 (toString16 b)) = 2"
    using length_padStart2[of "toString16 r"] length_padStart2[of "toString16 g"]
      length_padStart2[of "toString16 b"] by linarith+
  from parse_channels_shape[OF p] obtain s1 s2 s3 R where
    "r = parseInt s1 R" "g = parseInt s2 R" "b = parseInt s3 R" by blast
  with l have "two_chars r" "two_chars g" "two_chars b"
    using two_chars_parseInt by blast+
  from hex_fixpoint[OF this, of str] show "\<exists>rec'. convertColor str (hex rec) = Some rec' \<and> hex rec' = hex rec"
    unfolding h by auto
next
  fix r g b :: nat and a
  assume a: "parse_channels x = Some (Num (real r), Num (real g), Num (real b), a)
         \<and> r < 256 \<and> g < 256 \<and> b < 256"
  then have p: "parse_channels x = Some (Num (real r), Num (real g), Num (real b), a)" by simp
  obtain rec where rec: "convertColor str x = Some rec"
    using p by (cases "convertColor str x") (auto simp: convertColor_None_iff)
  from hex_of_convertColor[OF p, of str] rec
  have "hex rec = toLowerCase (''#'' @ padStart2 (toString16 (Num (real r)))
           @ padStart2 (toString16 (Num (real g))) @ padStart2 (toString16 (Num (real b))))"
    by simp
  then have "length (hex rec) = 7"
    using a by (simp add: toLowerCase_def toString16_nat to_base16_byte)
  with rec show "\<exists>rec. convertColor str x = Some rec \<and> length (hex rec) = 7" by blast
qed

lemma orange_channels: "parse_channels ''rgb(255, 128, 0)'' = Some (Num (real 255), Num (real 128), Num (real 0), None)"
  by code_simp

theorem convertColor_hex_idempotent_witness:
  "(\<exists>rec rec'. convertColor plain_str ''rgb(255, 128, 0)'' = Some rec \<and> length (hex rec) = 7
      \<and> convertColor plain_str (hex rec) = Some rec' \<and> hex rec' = hex rec)"
proof -
  note inst = convertColor_hex_idempotent[of plain_str "''rgb(255, 128, 0)''"]
  have orange_ok: "parse_channels ''rgb(255, 128, 0)'' =
      Some (Num (real 255), Num (real 128), Num (real 0), None)
      \<and> (255::nat) < 256 \<and> (128::nat) < 256 \<and> (0::nat) < 256"
    using orange_channels by simp
  from inst have "\<forall>r g b a. parse_channels ''rgb(255, 128, 0)'' =
         Some (Num (real r), Num (real g), Num (real b), a) \<and> r < 256 \<and> g < 256 \<and> b < 256 \<longrightarrow>
      (\<exists>rec. convertColor plain_str ''rgb(255, 128, 0)'' = Some rec \<and> length (hex rec) = 7)"
    by (rule conjunct2)
  with orange_ok obtain rec where
    rec: "convertColor plain_str ''rgb(255, 128, 0)'' = Some rec \<and> length (hex rec) = 7"
    by blast
  from inst have "\<forall>rec. convertColor plain_str ''rgb(255, 128, 0)'' = Some rec \<and> length (hex rec) = 7 \<longrightarrow>
      (\<exists>rec'. convertColor plain_str (hex rec) = Some rec' \<and> hex rec' = hex rec)"
    by (rule conjunct1)
  with rec show ?thesis by blast
qed

text \<open>
  Claim C5 as stated fails: no range is checked, so \<^verbatim>\<open>rgb(300,0,0)\<close> is converted, to the hex
  field \<^verbatim>\<open>#12c0000\<close>, which \<^verbatim>\<open>convertColor\<close> does not parse.
\<close>

lemma out_of_range_channels: "parse_channels ''rgb(300,0,0)'' = Some (Num 300, Num 0, Num 0, None)"
  by code_simp

lemma out_of_range_hex: "toLowerCase (''#'' @ padStart2 (toString16 (Num 300)) @ padStart2 (toString16 (Num 0)) @ padStart2 (toString16 (Num 0))) = ''#12c0000''"
  by code_simp

lemma out_of_range_hex_unparsed: "parse_channels ''#12c0000'' = None"
  by code_simp

theorem convertColor_hex_idempotent_counterexample:
  "map_option hex (convertColor plain_str ''rgb(300,0,0)'') = Some ''#12c0000''
   \<and> convertColor plain_str ''#12c0000'' = None"
  unfolding hex_of_convertColor[OF out_of_range_channels] out_of_range_hex convertColor_None_iff out_of_range_hex_unparsed by simp

subsection \<open>Examples\<close>

text \<open>
  Test cases of the specification, run on the embedding: the three-digit form doubles each
  digit; \<^verbatim>\<open>rgba(255,0,0,0.5)\<close> has an alpha below one, rendered last in the \<^verbatim>\<open>rgb\<close> string;
  \<^verbatim>\<open>hsl(200,50%,50%)\<close> is not parsed and \<^verbatim>\<open>normalizeColorFormat\<close> falls back to the string
  itself; characters that are no hex digits give \<^verbatim>\<open>NaN\<close> channels.
\<close>

lemma hex3_expansion: "parse_channels ''#abc'' = Some (Num 170, Num 187, Num 204, None)"
  by code_simp

lemma rgba_half_channels:
  "parse_channels ''rgba(255,0,0,0.5)'' = Some (Num 255, Num 0, Num 0, Some (Num (1 / 2)))"
  by code_simp

lemma rgba_half:
  "map_option hasAlpha (convertColor str ''rgba(255,0,0,0.5)'') = Some True
   \<and> map_option rgb (convertColor str ''rgba(255,0,0,0.5)'') =
       Some (''rgba('' @ str (Num 255) @ '', '' @ str (Num 0) @ '', '' @ str (Num 0) @ '', ''
               @ str (Num (1 / 2)) @ '')'')"
  by (simp add: convertColor_def rgba_half_channels less_than_one_def Let_def)

lemma hsl_unparsed: "parse_channels ''hsl(200,50%,50%)'' = None"
  by code_simp

lemma hsl_fallback:
  "normalizeColorFormat str ''hsl(200,50%,50%)'' =
     \<lparr>hex = ''hsl(200,50%,50%)'', rgb = ''hsl(200,50%,50%)'', lch = ''hsl(200,50%,50%)'',
      oklch = ''hsl(200,50%,50%)'', hasAlpha = False\<rparr>"
  by (simp add: normalizeColorFormat_def convertColor_def hsl_unparsed)

lemma not_hex_digits_channels: "parse_channels ''#zzz'' = Some (NaN, NaN, NaN, None)"
  by code_simp

section \<open>Properties of the rounding to a double\<close>

lemma round_half_even_near: "\<bar>of_int (round_half_even y) - y\<bar> \<le> 1 / 2"
  unfolding round_half_even_def Let_def by (auto; linarith)

lemma round_half_even_eq: "\<bar>y - of_int n\<bar> < 1 / 2 \<Longrightarrow> round_half_even y = n"
  using round_half_even_near[of y] by linarith



lemma ulp_pos: "0 < ulp x"
  by (simp add: ulp_def)

lemma ulp_half: "ulp x / 2 = 2 powr of_int (binade x) / 2 ^ 53"
proof -
  have "ulp x = 2 powr of_int (binade x) / 2 powr 52"
    unfolding ulp_def by (simp add: powr_diff)
  also have "(2::real) powr 52 = 2 ^ 52"
    by (simp add: powr_numeral)
  finally show ?thesis by simp
qed

lemma to_double_near: "\<bar>to_double x - x\<bar> \<le> ulp x / 2"
proof (cases "x = 0")
  case True
  then show ?thesis using ulp_pos[of x] by (simp add: to_double_def)
next
  case False
  define u where "u = ulp x"
  have u: "0 < u" unfolding u_def by (rule ulp_pos)
  have "to_double x - x = (of_int (round_half_even (x / u)) - x / u) * u"
    using False u by (simp add: to_double_def u_def[symmetric] algebra_simps)
  then have "\<bar>to_double x - x\<bar> = \<bar>of_int (round_half_even (x / u)) - x / u\<bar> * u"
    using u by (simp add: abs_mult)
  also have "\<dots> \<le> (1 / 2) * u"
    using round_half_even_near[of "x / u"] u by (intro mult_right_mono) auto
  finally show ?thesis by (simp add: u_def)
qed

lemma binade_eq:
  assumes "2 powr of_int e \<le> \<bar>x\<bar>" "\<bar>x\<bar> < 2 powr (of_int e + 1)" "- 1022 \<le> e"
  shows "binade x = e"
proof -
  have "0 < \<bar>x\<bar>" using assms(1) by (smt (verit) powr_gt_zero)
  then have "\<lfloor>log 2 \<bar>x\<bar>\<rfloor> = e"
    using assms(1,2) by (simp add: floor_log_eq_powr_iff)
  then show ?thesis using assms(3) by (simp add: binade_def)
qed

lemma binade_le:
  assumes "0 < \<bar>x\<bar>" "\<bar>x\<bar> < 2 powr (of_int e + 1)" "- 1022 \<le> e"
  shows "binade x \<le> e"
proof -
  have "log 2 \<bar>x\<bar> < of_int e + 1"
    using assms(1,2) by (simp add: log_less_iff)
  then have "\<lfloor>log 2 \<bar>x\<bar>\<rfloor> \<le> e" by linarith
  then show ?thesis using assms(3) by (simp add: binade_def)
qed


lemma two_powr_neg: "(2::real) powr (- real n) = 1 / 2 ^ n"
  by (simp add: powr_minus powr_realpow divide_inverse)

lemma ulp_power:
  assumes "binade x \<le> 52"
  shows "ulp x = 1 / 2 ^ nat (52 - binade x)"
proof -
  have e: "real_of_int (binade x - 52) = - real (nat (52 - binade x))"
    using assms by simp
  show ?thesis
    unfolding ulp_def e by (rule two_powr_neg)
qed


lemma to_double_rel: "\<bar>to_double x - x\<bar> \<le> \<bar>x\<bar> / 2 ^ 53 + 1 / 2 ^ 100"
proof (cases "x = 0")
  case True
  then show ?thesis by (simp add: to_double_def)
next
  case False
  have n: "to_double x - x \<le> ulp x / 2" "x - to_double x \<le> ulp x / 2"
    using to_double_near[of x] by linarith+
  have p: "0 \<le> \<bar>x\<bar> / 2 ^ 53" "(0::real) \<le> 1 / 2 ^ 100"
    by simp_all
  show ?thesis
  proof (cases "- 1022 \<le> \<lfloor>log 2 \<bar>x\<bar>\<rfloor>")
    case True
    then have b: "binade x = \<lfloor>log 2 \<bar>x\<bar>\<rfloor>" by (simp add: binade_def)
    have "of_int (binade x) \<le> log 2 \<bar>x\<bar>" unfolding b by linarith
    then have "2 powr of_int (binade x) \<le> \<bar>x\<bar>"
      using False by (simp add: powr_le_iff)
    then have "ulp x / 2 \<le> \<bar>x\<bar> / 2 ^ 53"
      unfolding ulp_half by (simp add: divide_right_mono)
    then show ?thesis using n p by linarith
  next
    case F: False
    then have b: "binade x = - 1022" by (simp add: binade_def)
    have "(2::real) powr of_int (binade x) \<le> 2 powr (- real 47)"
      unfolding b by (intro powr_mono) simp_all
    also have "(2::real) powr (- real 47) = 1 / 2 ^ 47"
      by (rule two_powr_neg)
    finally have "ulp x / 2 \<le> (1 / 2 ^ 47) / 2 ^ 53"
      unfolding ulp_half by (simp add: divide_right_mono)
    also have "((1::real) / 2 ^ 47) / 2 ^ 53 = 1 / 2 ^ 100"
      by simp
    finally show ?thesis using n p by linarith
  qed
qed

lemma binade_pos:
  assumes "2 ^ n \<le> \<bar>x\<bar>" "\<bar>x\<bar> < 2 * 2 ^ n"
  shows "binade x = int n"
proof (rule binade_eq)
  show "2 powr real_of_int (int n) \<le> \<bar>x\<bar>"
    using assms(1) by (simp add: powr_realpow)
  have "(2::real) powr (real_of_int (int n) + 1) = 2 * 2 ^ n"
    by (simp add: powr_add powr_realpow)
  then show "\<bar>x\<bar> < 2 powr (real_of_int (int n) + 1)"
    using assms(2) by simp
qed simp

lemma binade_neg:
  assumes "1 / 2 ^ n \<le> \<bar>x\<bar>" "\<bar>x\<bar> < 2 / 2 ^ n" "n \<le> 1022"
  shows "binade x = - int n"
proof (rule binade_eq)
  show "2 powr real_of_int (- int n) \<le> \<bar>x\<bar>"
    using assms(1) two_powr_neg[of n] by simp
  have "(2::real) powr (real_of_int (- int n) + 1) = 2 powr (- real n) * 2 powr 1"
    unfolding powr_add[symmetric] by simp
  then show "\<bar>x\<bar> < 2 powr (real_of_int (- int n) + 1)"
    using assms(2) two_powr_neg[of n] by simp
qed (use assms(3) in simp)

lemma to_double_eval:
  assumes "x \<noteq> 0" "ulp x = 1 / 2 ^ k" "\<bar>x * 2 ^ k - of_int m\<bar> < 1 / 2"
  shows "to_double x = of_int m / 2 ^ k"
proof -
  have "round_half_even (x / ulp x) = m"
    using assms(3) unfolding assms(2) by (intro round_half_even_eq) simp
  then show ?thesis using assms(1) by (simp add: to_double_def assms(2))
qed

lemma to_double_large:
  assumes "2 ^ n \<le> \<bar>x\<bar>" "\<bar>x\<bar> < 2 * 2 ^ n" "n \<le> 52" "\<bar>x * 2 ^ (52 - n) - of_int m\<bar> < 1 / 2"
  shows "to_double x = of_int m / 2 ^ (52 - n)"
proof (rule to_double_eval)
  show "x \<noteq> 0" using assms(1) by (smt (verit) zero_less_power)
  have "binade x = int n" using assms(1,2) by (rule binade_pos)
  then show "ulp x = 1 / 2 ^ (52 - n)"
    using ulp_power[of x] assms(3) by (simp add: nat_diff_distrib')
qed (rule assms(4))

lemma to_double_small:
  assumes "1 / 2 ^ n \<le> \<bar>x\<bar>" "\<bar>x\<bar> < 2 / 2 ^ n" "n \<le> 1022" "\<bar>x * 2 ^ (52 + n) - of_int m\<bar> < 1 / 2"
  shows "to_double x = of_int m / 2 ^ (52 + n)"
proof (rule to_double_eval)
  show "x \<noteq> 0" using assms(1) by (smt (verit) zero_less_power divide_pos_pos zero_less_one)
  have "binade x = - int n" using assms(1,2,3) by (rule binade_neg)
  then show "ulp x = 1 / 2 ^ (52 + n)"
    using ulp_power[of x] by (simp add: nat_add_distrib)
qed (rule assms(4))

lemma binade_le_pos:
  assumes "x \<noteq> 0" "\<bar>x\<bar> < 2 * 2 ^ n"
  shows "binade x \<le> int n"
proof (rule binade_le)
  have "(2::real) powr (real_of_int (int n) + 1) = 2 * 2 ^ n"
    by (simp add: powr_add powr_realpow)
  then show "\<bar>x\<bar> < 2 powr (real_of_int (int n) + 1)"
    using assms(2) by simp
qed (use assms(1) in simp_all)


lemma to_double_zero [simp]: "to_double 0 = 0"
  by (simp add: to_double_def)

lemma to_double_int:
  assumes "\<bar>n\<bar> < 2 ^ 53"
  shows "to_double (of_int n) = of_int n"
proof (cases "n = 0")
  case True
  then show ?thesis by simp
next
  case False
  have "real_of_int \<bar>n\<bar> < real_of_int (2 ^ 53)"
    using assms by (simp only: of_int_less_iff)
  then have "\<bar>real_of_int n\<bar> < 2 * 2 ^ 52"
    by simp
  then have b: "binade (of_int n) \<le> int 52"
    using False by (intro binade_le_pos) simp_all
  define k where "k = nat (52 - binade (real_of_int n))"
  have u: "ulp (of_int n) = 1 / 2 ^ k"
    unfolding k_def using b by (intro ulp_power) simp
  have "real_of_int n / ulp (of_int n) = of_int (n * 2 ^ k)"
    unfolding u by simp
  then have "round_half_even (real_of_int n / ulp (of_int n)) = n * 2 ^ k"
    using round_half_even_eq[of "real_of_int n / ulp (of_int n)" "n * 2 ^ k"]
    by simp
  then show ?thesis
    using False unfolding to_double_def u by simp
qed

section \<open>Properties of the colour conversions\<close>

subsection \<open>\<^verbatim>\<open>rgbToLch\<close> is the composition of the specification\<close>


















subsection \<open>\<^verbatim>\<open>formatOklch\<close>\<close>

lemma Math_round_int: "Math_round x \<in> \<int>"
  by (simp add: Math_round_def)

lemma Math_round_near: "\<bar>Math_round x - x\<bar> \<le> 1 / 2"
  unfolding Math_round_def by linarith

lemma Math_round_tie: "Math_round (of_int m + 1 / 2) = of_int m + 1"
  by (simp add: Math_round_def)

lemma rounded_near:
  fixes x m d :: real
  assumes d: "1 \<le> d"
  shows "\<bar>to_double (Math_round (to_double (x * m)) / d) - x * m / d\<bar>
           \<le> 1 / (2 * d) + (\<bar>x * m / d\<bar> + 1) / 2 ^ 51"
proof -
  define y where "y = x * m"
  define P where "P = to_double y"
  define k where "k = Math_round P"
  define q where "q = to_double (k / d)"
  define A where "A = \<bar>y\<bar> / d"
  define i where "i = 1 / d"
  have i: "0 < i" "i \<le> 1" using d by (simp_all add: i_def)
  have A0: "0 \<le> A" using d by (simp add: A_def)
  have e1: "\<bar>P - y\<bar> \<le> \<bar>y\<bar> / 2 ^ 53 + 1 / 2 ^ 100"
    unfolding P_def by (rule to_double_rel)
  have e2: "\<bar>k - P\<bar> \<le> 1 / 2"
    unfolding k_def by (rule Math_round_near)
  have e3: "\<bar>q - k / d\<bar> \<le> \<bar>k / d\<bar> / 2 ^ 53 + 1 / 2 ^ 100"
    unfolding q_def by (rule to_double_rel)
  have "\<bar>P - y\<bar> * i \<le> (\<bar>y\<bar> / 2 ^ 53 + 1 / 2 ^ 100) * i"
    using e1 i(1) by (intro mult_right_mono) simp_all
  also have "\<dots> = A / 2 ^ 53 + (1 / 2 ^ 100) * i"
    by (simp add: A_def i_def algebra_simps)
  also have "\<dots> \<le> A / 2 ^ 53 + 1 / 2 ^ 100"
    using i by simp
  finally have d1: "\<bar>P - y\<bar> * i \<le> A / 2 ^ 53 + 1 / 2 ^ 100" .
  have d2: "\<bar>k - P\<bar> * i \<le> (1 / 2) * i"
    using e2 i(1) by (intro mult_right_mono) simp_all
  have kb: "\<bar>k\<bar> \<le> \<bar>y\<bar> + \<bar>y\<bar> / 2 ^ 53 + 1 / 2 ^ 100 + 1 / 2"
    using e1 e2 by linarith
  have "\<bar>k\<bar> * i \<le> (\<bar>y\<bar> + \<bar>y\<bar> / 2 ^ 53 + 1 / 2 ^ 100 + 1 / 2) * i"
    using kb i(1) by (intro mult_right_mono) simp_all
  also have "\<dots> = A + A / 2 ^ 53 + (1 / 2 ^ 100 + 1 / 2) * i"
    by (simp add: A_def i_def algebra_simps)
  also have "\<dots> \<le> A + A / 2 ^ 53 + 1"
  proof -
    have "(1 / 2 ^ 100 + 1 / 2) * i \<le> (1 / 2 ^ 100 + 1 / 2) * 1"
      using i(2) by (intro mult_left_mono) simp_all
    then show ?thesis by simp
  qed
  finally have kd: "\<bar>k / d\<bar> \<le> A + A / 2 ^ 53 + 1"
    using d by (simp add: i_def abs_mult)
  have "q - y / d = (q - k / d) + (k - P) * i + (P - y) * i"
    by (simp add: i_def algebra_simps diff_divide_distrib)
  then have "\<bar>q - y / d\<bar> \<le> \<bar>q - k / d\<bar> + \<bar>(k - P) * i\<bar> + \<bar>(P - y) * i\<bar>"
    by linarith
  also have "\<dots> = \<bar>q - k / d\<bar> + \<bar>k - P\<bar> * i + \<bar>P - y\<bar> * i"
    using i(1) by (simp add: abs_mult)
  finally have tri: "\<bar>q - y / d\<bar> \<le> \<bar>q - k / d\<bar> + \<bar>k - P\<bar> * i + \<bar>P - y\<bar> * i" .
  define E3 where "E3 = \<bar>q - k / d\<bar>"
  define Kd where "Kd = \<bar>k / d\<bar>"
  define D1 where "D1 = \<bar>P - y\<bar> * i"
  define D2 where "D2 = \<bar>k - P\<bar> * i"
  define Q where "Q = \<bar>q - y / d\<bar>"
  define X where "X = A / 2 ^ 53"
  define c :: real where "c = 1 / 2 ^ 53"
  define t :: real where "t = 1 / 2 ^ 100"
  have X0: "0 \<le> X" "X \<le> A" using A0 by (simp_all add: X_def field_simps)
  have c: "t \<le> c" "0 < c" by (simp_all add: t_def c_def)
  have f: "Q \<le> E3 + D2 + D1" "E3 \<le> Kd / 2 ^ 53 + t" "Kd \<le> A + X + 1"
    "D1 \<le> X + t" "D2 \<le> (1 / 2) * i"
    unfolding Q_def E3_def Kd_def D1_def D2_def X_def t_def using tri e3 kd d1 d2 by blast+
  have "Kd \<le> 2 * A + 1" using f(3) X0 by linarith
  then have "Kd / 2 ^ 53 \<le> (2 * A + 1) / 2 ^ 53"
    by (intro divide_right_mono) simp_all
  also have "\<dots> = 2 * X + c"
    by (simp add: X_def c_def add_divide_distrib)
  finally have g: "Kd / 2 ^ 53 \<le> 2 * X + c" .
  have r: "(A + 1) / 2 ^ 51 = 4 * X + 4 * c"
    by (simp add: X_def c_def add_divide_distrib)
  have "Q \<le> (1 / 2) * i + (A + 1) / 2 ^ 51"
    unfolding r using f g X0 c by linarith
  moreover have "\<bar>d\<bar> = d" using d by simp
  ultimately show ?thesis
    by (simp add: Q_def q_def k_def P_def y_def A_def i_def abs_divide)
qed

lemma formatOklch_holes:
  "formatOklch str (l, c, h) alpha =
     ''oklch('' @ str (num_map (\<lambda>x. to_double (Math_round (to_double (x * 10000)) / 100)) l) @ ''% ''
       @ str (num_map (\<lambda>x. to_double (Math_round (to_double (x * 1000)) / 1000)) c) @ '' ''
       @ str (num_map (\<lambda>x. to_double (Math_round (to_double (x * 100)) / 100)) h)
       @ (if \<exists>a. alpha = Some (Num a) \<and> a < 1 then '' / '' @ str (the alpha) else []) @ '')''"
proof (cases alpha)
  case None
  then show ?thesis
    by (simp add: formatOklch_def)
next
  case (Some v)
  then show ?thesis
    by (cases v) (simp_all add: formatOklch_def less_than_one_def)
qed

text \<open>
  Claim C9, as the code has it. For numbers \<open>L\<close>, \<open>C\<close>, \<open>H\<close> of magnitude up to \<open>10^300\<close> (beyond it the
  products overflow) and every optional alpha, \<^verbatim>\<open>formatOklch\<close> puts into \<^verbatim>\<open>oklch(L% C H)\<close> the
  values \<open>round (L * 10000) / 100\<close>, \<open>round (C * 1000) / 1000\<close> and \<open>round (H * 100) / 100\<close>, where
  the product and the quotient are doubles and \<open>round\<close> gives the integer nearest to the
  product, a tie going up. The lightness printed is within \<open>1 / 200\<close> of \<open>100 L\<close>, the chroma
  within \<open>1 / 2000\<close> of \<open>C\<close> and the hue within \<open>1 / 200\<close> of \<open>H\<close>, each up to a relative error of
  \<open>2^-51\<close>. A triple of \<^verbatim>\<open>NaN\<close> is printed as such. The part \<^verbatim>\<open>/ alpha\<close> is there exactly when alpha
  is defined and less than one.
\<close>

theorem formatOklch_rendering:
  assumes "\<bar>L\<bar> \<le> 10 ^ 300" "\<bar>C\<bar> \<le> 10 ^ 300" "\<bar>H\<bar> \<le> 10 ^ 300"
  shows
    "formatOklch str (Num L, Num C, Num H) alpha =
       ''oklch('' @ str (Num (to_double (Math_round (to_double (L * 10000)) / 100))) @ ''% ''
         @ str (Num (to_double (Math_round (to_double (C * 1000)) / 1000))) @ '' ''
         @ str (Num (to_double (Math_round (to_double (H * 100)) / 100)))
         @ (if \<exists>a. alpha = Some (Num a) \<and> a < 1 then '' / '' @ str (the alpha) else []) @ '')''
     \<and> formatOklch str (NaN, NaN, NaN) alpha =
       ''oklch('' @ str NaN @ ''% '' @ str NaN @ '' '' @ str NaN
         @ (if \<exists>a. alpha = Some (Num a) \<and> a < 1 then '' / '' @ str (the alpha) else []) @ '')''
     \<and> (\<forall>x. Math_round x \<in> \<int> \<and> \<bar>Math_round x - x\<bar> \<le> 1 / 2)
     \<and> (\<forall>m. Math_round (of_int m + 1 / 2) = of_int m + 1)
     \<and> \<bar>to_double (Math_round (to_double (L * 10000)) / 100) - 100 * L\<bar>
         \<le> 1 / 200 + (\<bar>100 * L\<bar> + 1) / 2 ^ 51
     \<and> \<bar>to_double (Math_round (to_double (C * 1000)) / 1000) - C\<bar>
         \<le> 1 / 2000 + (\<bar>C\<bar> + 1) / 2 ^ 51
     \<and> \<bar>to_double (Math_round (to_double (H * 100)) / 100) - H\<bar>
         \<le> 1 / 200 + (\<bar>H\<bar> + 1) / 2 ^ 51"
proof -
  have a: "\<bar>to_double (Math_round (to_double (L * 10000)) / 100) - 100 * L\<bar>
         \<le> 1 / 200 + (\<bar>100 * L\<bar> + 1) / 2 ^ 51"
    using rounded_near[of 100 L 10000] by simp
  have b: "\<bar>to_double (Math_round (to_double (C * 1000)) / 1000) - C\<bar>
         \<le> 1 / 2000 + (\<bar>C\<bar> + 1) / 2 ^ 51"
    using rounded_near[of 1000 C 1000] by simp
  have c: "\<bar>to_double (Math_round (to_double (H * 100)) / 100) - H\<bar>
         \<le> 1 / 200 + (\<bar>H\<bar> + 1) / 2 ^ 51"
    using rounded_near[of 100 H 100] by simp
  have d: "\<forall>x. Math_round x \<in> \<int> \<and> \<bar>Math_round x - x\<bar> \<le> 1 / 2"
    using Math_round_int Math_round_near by blast
  have e: "\<forall>m. Math_round (of_int m + 1 / 2) = of_int m + 1"
    using Math_round_tie by blast
  have f: "formatOklch str (Num L, Num C, Num H) alpha =
       ''oklch('' @ str (Num (to_double (Math_round (to_double (L * 10000)) / 100))) @ ''% ''
         @ str (Num (to_double (Math_round (to_double (C * 1000)) / 1000))) @ '' ''
         @ str (Num (to_double (Math_round (to_double (H * 100)) / 100)))
         @ (if \<exists>a. alpha = Some (Num a) \<and> a < 1 then '' / '' @ str (the alpha) else []) @ '')''"
    unfolding formatOklch_holes num_map_def number.case by (rule refl)
  have g: "formatOklch str (NaN, NaN, NaN) alpha =
       ''oklch('' @ str NaN @ ''% '' @ str NaN @ '' '' @ str NaN
         @ (if \<exists>a. alpha = Some (Num a) \<and> a < 1 then '' / '' @ str (the alpha) else []) @ '')''"
    unfolding formatOklch_holes num_map_def number.case by (rule refl)
  from f g d e a b c show ?thesis by blast
qed

lemma to_double_50: "to_double 5000 = 5000" "to_double 50 = 50"
  using to_double_int[of 5000] to_double_int[of 50] by simp_all

lemma Math_round_5000: "Math_round 5000 = 5000"
  by (simp add: Math_round_def)

theorem formatOklch_rendering_witness:
  "formatOklch sample_str (Num (1 / 2), Num 0, Num 0) (Some (Num (1 / 2))) = ''oklch(50% 0 0 / 0.5)''
   \<and> \<bar>to_double (Math_round (to_double (1 / 2 * 10000)) / 100) - 100 * (1 / 2)\<bar>
        \<le> 1 / 200 + (\<bar>100 * (1 / 2)\<bar> + 1) / 2 ^ 51"
proof -
  have r: "\<bar>1 / 2 :: real\<bar> \<le> 10 ^ 300" "\<bar>0 :: real\<bar> \<le> 10 ^ 300"
    by simp_all
  note inst = formatOklch_rendering[OF r(1) r(2) r(2), of sample_str "Some (Num (1 / 2))"]
  have x: "\<exists>a. Some (Num (1 / 2)) = Some (Num a) \<and> a < 1"
    by (intro exI[of _ "1 / 2"]) simp
  have h: "to_double (Math_round (to_double (1 / 2 * 10000)) / 100) = 50"
    "to_double (Math_round (to_double (0 * 1000)) / 1000) = 0"
    "to_double (Math_round (to_double (0 * 100)) / 100) = 0"
    by (simp_all add: to_double_50 Math_round_5000 Math_round_def)
  from inst have "formatOklch sample_str (Num (1 / 2), Num 0, Num 0) (Some (Num (1 / 2))) =
       ''oklch('' @ sample_str (Num 50) @ ''% '' @ sample_str (Num 0) @ '' '' @ sample_str (Num 0)
         @ '' / '' @ sample_str (Num (1 / 2)) @ '')''"
    unfolding h if_P[OF x] option.sel by simp
  then have a: "formatOklch sample_str (Num (1 / 2), Num 0, Num 0) (Some (Num (1 / 2))) = ''oklch(50% 0 0 / 0.5)''"
    by (simp add: sample_str_def)
  from inst have b: "\<bar>to_double (Math_round (to_double (1 / 2 * 10000)) / 100) - 100 * (1 / 2)\<bar>
        \<le> 1 / 200 + (\<bar>100 * (1 / 2)\<bar> + 1) / 2 ^ 51"
    by blast
  from a b show ?thesis by (rule conjI)
qed

lemma to_double_0045: "to_double (45 / 10000) = 5188146770730811 / 2 ^ 60"
proof -
  have "to_double (45 / 10000) = of_int 5188146770730811 / 2 ^ (52 + 8)"
    by (rule to_double_small) simp_all
  then show ?thesis by simp
qed

lemma to_double_45: "to_double (to_double (45 / 10000) * 1000) = 9 / 2"
proof -
  have "to_double (5188146770730811 / 2 ^ 60 * 1000) = of_int 5066549580791808 / 2 ^ (52 - 2)"
    by (rule to_double_large) simp_all
  then show ?thesis unfolding to_double_0045 by simp
qed

lemma to_double_0005: "to_double (5 / 1000) = 5764607523034235 / 2 ^ 60"
proof -
  have "to_double (5 / 1000) = of_int 5764607523034235 / 2 ^ (52 + 8)"
    by (rule to_double_small) simp_all
  then show ?thesis by simp
qed

lemma Math_round_45: "Math_round (9 / 2) = 5"
  by (simp add: Math_round_def)

text \<open>
  Claim C9 as stated fails for the chroma rounded to three decimal places. The double that
  \<^verbatim>\<open>0.0045\<close> denotes lies below \<open>45 / 10000\<close>, so that its rounding to three places is
  \<open>4 / 1000\<close>; its product with 1000 is the double \<open>4.5\<close>, which \<^verbatim>\<open>Math.round\<close> takes to 5, and
  \<^verbatim>\<open>0.005\<close> is printed.
\<close>

theorem formatOklch_rounding_counterexample:
  "formatOklch sample_str (Num 0, Num (to_double (45 / 10000)), Num 0) None = ''oklch(0% 0.005 0)''
   \<and> round_places 3 (to_double (45 / 10000)) = 4 / 1000"
proof -
  have h: "to_double (Math_round (to_double (0 * 10000)) / 100) = 0"
    "to_double (Math_round (to_double (to_double (45 / 10000) * 1000)) / 1000) = to_double (5 / 1000)"
    "to_double (Math_round (to_double (0 * 100)) / 100) = 0"
    unfolding to_double_45 Math_round_45 by (simp_all add: Math_round_def)
  have n: "\<not> (\<exists>a. None = Some (Num a) \<and> a < 1)"
    by simp
  have "formatOklch sample_str (Num 0, Num (to_double (45 / 10000)), Num 0) None =
      ''oklch('' @ sample_str (Num 0) @ ''% '' @ sample_str (Num (to_double (5 / 1000))) @ '' ''
        @ sample_str (Num 0) @ [] @ '')''"
    unfolding formatOklch_holes num_map_def number.case h if_not_P[OF n] by (rule refl)
  moreover have "sample_str (Num (to_double (5 / 1000))) = ''0.005''"
    unfolding sample_str_def number.case to_double_0005
    by simp
  moreover have "sample_str (Num 0) = ''0''"
    by (simp add: sample_str_def)
  moreover have "round_places 3 (to_double (45 / 10000)) = 4 / 1000"
    unfolding to_double_0045 by (simp add: round_places_def)
  ultimately show ?thesis by simp
qed

subsection \<open>The chroma of greys\<close>

lemma powr_24_pow5: "0 < (b::real) \<Longrightarrow> (b powr 2.4) ^ 5 = b ^ 12"
proof -
  assume b: "0 < b"
  have "(b powr 2.4) ^ 5 = b powr (real 5 * 2.4)"
    using b by (intro powr_power) simp
  also have "\<dots> = b powr 12" by simp
  also have "\<dots> = b ^ 12" using b by simp
  finally show ?thesis .
qed

lemma powr_24_less: "0 < (b::real) \<Longrightarrow> 0 \<le> c \<Longrightarrow> b ^ 12 < c ^ 5 \<Longrightarrow> b powr 2.4 < c"
  using powr_24_pow5[of b] power_less_imp_less_base[of "b powr 2.4" 5 c] by simp

lemma powr_24_greater: "0 < (b::real) \<Longrightarrow> c ^ 5 < b ^ 12 \<Longrightarrow> c < b powr 2.4"
  using powr_24_pow5[of b] power_less_imp_less_base[of c 5 "b powr 2.4"] by simp

lemma root3_less: "0 \<le> y \<Longrightarrow> x < y ^ 3 \<Longrightarrow> root 3 x < y"
  using real_root_less_mono[of 3 x "y ^ 3"] real_root_power_cancel[of 3 y] by simp

lemma root3_greater: "0 \<le> y \<Longrightarrow> y ^ 3 < x \<Longrightarrow> y < root 3 x"
  using real_root_less_mono[of 3 "y ^ 3" x] real_root_power_cancel[of 3 y] by simp

lemma srgb_small: "0.1377 powr 2.4 < (0.0088::real)"
  by (rule powr_24_less) (simp_all add: power_divide)

lemma srgb_large: "(0.008856::real) < 0.1413 powr 2.4"
  by (rule powr_24_greater) (simp_all add: power_divide)

lemma cbrt_white_upper: "root 3 1.0000001 < 1 + 0.0000000334"
  by (rule root3_less) (simp_all add: power_divide)

lemma cbrt_white_lower: "1 + 0.00000003 < root 3 1.0000001"
  by (rule root3_greater) (simp_all add: power_divide)

lemma cbrt_ok_lower: "1 - 0.00000000004 < root 3 0.9999999999"
  by (rule root3_greater) (simp_all add: power_divide)

lemma cbrt_ok_upper: "root 3 0.9999999999 < 1"
  using real_root_less_mono[of 3 "0.9999999999" 1] by simp

lemma srgb_grey_range:
  assumes "0 \<le> c" "c \<le> 255"
  shows "0 \<le> srgbToLinear c \<and> srgbToLinear c \<le> 1"
proof (cases "c / 255 \<le> 0.04045")
  case True
  then show ?thesis using assms by (simp add: srgbToLinear_def)
next
  case False
  have "(c / 255 + 0.055) / 1.055 \<le> 1" using assms by simp
  moreover have "0 \<le> (c / 255 + 0.055) / 1.055" using assms by simp
  ultimately have "((c / 255 + 0.055) / 1.055) powr 2.4 \<le> 1 powr 2.4"
    by (intro powr_mono2) simp_all
  with False show ?thesis by (simp add: srgbToLinear_def)
qed

lemma srgb_grey_dark:
  assumes "0 \<le> c" "c \<le> 23"
  shows "srgbToLinear c < 0.0088"
proof (cases "c / 255 \<le> 0.04045")
  case True
  then have "c / 255 / 12.92 \<le> 0.04045 / 12.92"
    by (intro divide_right_mono) simp_all
  with True show ?thesis by (simp add: srgbToLinear_def)
next
  case False
  have "(c / 255 + 0.055) / 1.055 \<le> 0.1377" using assms by simp
  moreover have "0 \<le> (c / 255 + 0.055) / 1.055" using assms by simp
  ultimately have "((c / 255 + 0.055) / 1.055) powr 2.4 \<le> 0.1377 powr 2.4"
    by (intro powr_mono2) simp_all
  with False srgb_small show ?thesis by (simp add: srgbToLinear_def)
qed

lemma srgb_grey_light:
  assumes "24 \<le> c"
  shows "0.008856 < srgbToLinear c"
proof -
  have c: "\<not> c / 255 \<le> 0.04045" using assms by simp
  have "0.1413 \<le> (c / 255 + 0.055) / 1.055" using assms by simp
  then have "0.1413 powr 2.4 \<le> ((c / 255 + 0.055) / 1.055) powr 2.4"
    by (intro powr_mono2) simp_all
  with c srgb_large show ?thesis by (simp add: srgbToLinear_def)
qed

lemma chroma_labToLch: "chroma (labToLch l a b) = sqrt (a * a + b * b)"
  by (simp add: chroma_def labToLch_def Let_def)

lemma chroma_oklabToOklch: "chroma (oklabToOklch l a b) = sqrt (a * a + b * b)"
  by (simp add: chroma_def oklabToOklch_def Let_def)

lemma lch_grey:
  "chroma (rgbToLch c c c) =
     sqrt (290000 * (lab_f (1.0000001 * srgbToLinear c) - lab_f (srgbToLinear c))\<^sup>2)"
proof -
  define v where "v = srgbToLinear c"
  have x: "(0.4124564 * v + 0.3575761 * v + 0.1804375 * v) / 0.95047 = v" by simp
  have y: "(0.2126729 * v + 0.7151522 * v + 0.0721750 * v) / 1.00000 = 1.0000001 * v" by simp
  have z: "(0.0193339 * v + 0.1191920 * v + 0.9503041 * v) / 1.08883 = v" by simp
  have "rgbToLch c c c =
      labToLch (116 * lab_f (1.0000001 * v) - 16)
        (500 * (lab_f v - lab_f (1.0000001 * v))) (200 * (lab_f (1.0000001 * v) - lab_f v))"
    unfolding rgbToLch_def linearRgbToXyz_def xyzToLab_def Let_def prod.case v_def[symmetric] x y z
    by (rule refl)
  then have "chroma (rgbToLch c c c) =
      sqrt (500 * (lab_f v - lab_f (1.0000001 * v)) * (500 * (lab_f v - lab_f (1.0000001 * v)))
        + 200 * (lab_f (1.0000001 * v) - lab_f v) * (200 * (lab_f (1.0000001 * v) - lab_f v)))"
    by (simp only: chroma_labToLch)
  also have "500 * (lab_f v - lab_f (1.0000001 * v)) * (500 * (lab_f v - lab_f (1.0000001 * v)))
        + 200 * (lab_f (1.0000001 * v) - lab_f v) * (200 * (lab_f (1.0000001 * v) - lab_f v))
      = 290000 * (lab_f (1.0000001 * v) - lab_f v)\<^sup>2"
    by (simp add: power2_eq_square algebra_simps)
  finally show ?thesis unfolding v_def .
qed

lemma lch_grey_le:
  assumes "0 \<le> lab_f (1.0000001 * srgbToLinear c) - lab_f (srgbToLinear c)"
    and "lab_f (1.0000001 * srgbToLinear c) - lab_f (srgbToLinear c) \<le> d"
  shows "chroma (rgbToLch c c c) \<le> 539 * d"
proof -
  define D where "D = lab_f (1.0000001 * srgbToLinear c) - lab_f (srgbToLinear c)"
  have D: "0 \<le> D" "D \<le> d" using assms unfolding D_def by simp_all
  have "290000 * D\<^sup>2 \<le> (539 * D)\<^sup>2"
    by (simp add: power_mult_distrib mult_right_mono)
  then have "sqrt (290000 * D\<^sup>2) \<le> 539 * D"
    using D(1) by (intro real_le_lsqrt) simp_all
  also have "\<dots> \<le> 539 * d" using D(2) by simp
  finally show ?thesis unfolding lch_grey D_def .
qed

lemma lab_f_step_dark:
  assumes "0 \<le> v" "v < 0.0088"
  shows "0 \<le> lab_f (1.0000001 * v) - lab_f v" "lab_f (1.0000001 * v) - lab_f v \<le> 0.00000001"
proof -
  have u: "\<not> 1.0000001 * v > 0.008856" "\<not> v > 0.008856" using assms by simp_all
  have e: "lab_f (1.0000001 * v) - lab_f v = 903.3 * 0.0000001 * v / 116"
    using u by (simp add: lab_f_def field_simps)
  show "0 \<le> lab_f (1.0000001 * v) - lab_f v" unfolding e using assms by simp
  show "lab_f (1.0000001 * v) - lab_f v \<le> 0.00000001" unfolding e using assms by simp
qed

lemma lab_f_step_light:
  assumes "0.008856 < v" "v \<le> 1"
  shows "0 \<le> lab_f (1.0000001 * v) - lab_f v" "lab_f (1.0000001 * v) - lab_f v \<le> 0.0000000334"
    "root 3 v * 0.00000003 \<le> lab_f (1.0000001 * v) - lab_f v"
proof -
  have u: "1.0000001 * v > 0.008856" using assms by simp
  have t: "0 \<le> root 3 v" "root 3 v \<le> 1"
    using assms real_root_ge_zero[of v 3] real_root_le_mono[of 3 v 1] by simp_all
  have l1: "lab_f (1.0000001 * v) = root 3 (1.0000001 * v)"
    using u by (simp add: lab_f_def)
  have l2: "lab_f v = root 3 v"
    using assms(1) by (simp add: lab_f_def)
  have rm: "root 3 (1.0000001 * v) = root 3 1.0000001 * root 3 v"
    by (rule real_root_mult)
  have e: "lab_f (1.0000001 * v) - lab_f v = root 3 v * (root 3 1.0000001 - 1)"
    unfolding l1 l2 rm by (simp only: algebra_simps)
  have q: "0 \<le> root 3 1.0000001 - 1" "root 3 1.0000001 - 1 \<le> 0.0000000334"
    "0.00000003 \<le> root 3 1.0000001 - 1"
    using cbrt_white_lower cbrt_white_upper by simp_all
  show "0 \<le> lab_f (1.0000001 * v) - lab_f v"
    unfolding e using t(1) q(1) by simp
  have "root 3 v * (root 3 1.0000001 - 1) \<le> 1 * 0.0000000334"
    using t q by (intro mult_mono) simp_all
  then show "lab_f (1.0000001 * v) - lab_f v \<le> 0.0000000334"
    unfolding e by simp
  show "root 3 v * 0.00000003 \<le> lab_f (1.0000001 * v) - lab_f v"
    unfolding e using t(1) q(3) by (intro mult_left_mono) simp_all
qed

lemma lch_grey_bound:
  assumes "k \<le> 255"
  shows "chroma (rgbToLch (real k) (real k) (real k)) \<le> 0.00002"
proof -
  have r: "0 \<le> srgbToLinear (real k)" "srgbToLinear (real k) \<le> 1"
    using srgb_grey_range[of "real k"] assms by simp_all
  show ?thesis
  proof (cases "k \<le> 23")
    case True
    then have "srgbToLinear (real k) < 0.0088"
      by (intro srgb_grey_dark) simp_all
    from lab_f_step_dark[OF r(1) this] have "chroma (rgbToLch (real k) (real k) (real k)) \<le> 539 * 0.00000001"
      by (intro lch_grey_le) simp_all
    then show ?thesis by simp
  next
    case False
    then have "0.008856 < srgbToLinear (real k)"
      by (intro srgb_grey_light) simp
    from lab_f_step_light(1,2)[OF this r(2)]
    have "chroma (rgbToLch (real k) (real k) (real k)) \<le> 539 * 0.0000000334"
      by (intro lch_grey_le) simp_all
    then show ?thesis by simp
  qed
qed

lemma srgbToLinear_255: "srgbToLinear 255 = 1"
  by (simp add: srgbToLinear_def)

lemma lch_white_chroma: "0.00001 < chroma (rgbToLch 255 255 255)"
proof -
  define D where "D = lab_f (1.0000001 * 1) - lab_f 1"
  have "root 3 1 * 0.00000003 \<le> D"
    unfolding D_def by (intro lab_f_step_light(3)) simp_all
  then have D: "0.00000003 \<le> D" by simp
  have "(500 * D)\<^sup>2 \<le> 290000 * D\<^sup>2"
    by (simp add: power_mult_distrib mult_right_mono)
  then have "sqrt ((500 * D)\<^sup>2) \<le> sqrt (290000 * D\<^sup>2)"
    by (rule real_sqrt_le_mono)
  moreover have "0 \<le> 500 * D" using D by simp
  then have "sqrt ((500 * D)\<^sup>2) = 500 * D"
    by (simp only: real_sqrt_abs abs_of_nonneg)
  ultimately have "500 * D \<le> chroma (rgbToLch 255 255 255)"
    unfolding lch_grey srgbToLinear_255 D_def[symmetric] by (simp only:)
  with D show ?thesis by simp
qed

lemma oklch_grey:
  "chroma (rgbToOklch c c c) =
     sqrt ((2.428592205 * root 3 (srgbToLinear c) * (1 - root 3 0.9999999999))\<^sup>2
         + (root 3 (srgbToLinear c) * (0.7827717662 * root 3 0.9999999999 - 0.7827717289))\<^sup>2)"
proof -
  define v where "v = srgbToLinear c"
  define t where "t = root 3 v"
  define p where "p = root 3 0.9999999999"
  have l: "0.4122214708 * v + 0.5363325363 * v + 0.0514459929 * v = v" by simp
  have m: "0.2119034982 * v + 0.6806995451 * v + 0.1073969566 * v = 0.9999999999 * v" by simp
  have s: "0.0883024619 * v + 0.2817188376 * v + 0.6299787005 * v = v" by simp
  have rm: "root 3 (0.9999999999 * v) = p * t"
    unfolding p_def t_def by (rule real_root_mult)
  have "rgbToOklch c c c =
      oklabToOklch (0.2104542553 * t + 0.7936177850 * (p * t) - 0.0040720468 * t)
        (1.9779984951 * t - 2.4285922050 * (p * t) + 0.4505937099 * t)
        (0.0259040371 * t + 0.7827717662 * (p * t) - 0.8086757660 * t)"
    unfolding rgbToOklch_def linearRgbToOklab_def Let_def prod.case v_def[symmetric] l m s rm
      t_def[symmetric]
    by (rule refl)
  then have "chroma (rgbToOklch c c c) =
      sqrt ((1.9779984951 * t - 2.4285922050 * (p * t) + 0.4505937099 * t)
            * (1.9779984951 * t - 2.4285922050 * (p * t) + 0.4505937099 * t)
          + (0.0259040371 * t + 0.7827717662 * (p * t) - 0.8086757660 * t)
            * (0.0259040371 * t + 0.7827717662 * (p * t) - 0.8086757660 * t))"
    by (simp only: chroma_oklabToOklch)
  also have "1.9779984951 * t - 2.4285922050 * (p * t) + 0.4505937099 * t
      = 2.428592205 * t * (1 - p)"
    by (simp add: algebra_simps)
  also have "0.0259040371 * t + 0.7827717662 * (p * t) - 0.8086757660 * t
      = t * (0.7827717662 * p - 0.7827717289)"
    by (simp add: algebra_simps)
  finally show ?thesis
    unfolding t_def p_def v_def power2_eq_square .
qed

lemma oklch_grey_bound:
  assumes "0 \<le> c" "c \<le> 255"
  shows "chroma (rgbToOklch c c c) \<le> 0.00000004"
proof -
  define t where "t = root 3 (srgbToLinear c)"
  define p where "p = root 3 0.9999999999"
  have t: "0 \<le> t" "t \<le> 1"
    unfolding t_def
    using srgb_grey_range[OF assms] real_root_ge_zero[of "srgbToLinear c" 3]
      real_root_le_mono[of 3 "srgbToLinear c" 1] by simp_all
  have p: "1 - 0.00000000004 < p" "p < 1"
    unfolding p_def using cbrt_ok_lower cbrt_ok_upper by simp_all
  have a: "\<bar>2.428592205 * t * (1 - p)\<bar> \<le> 0.0000000001"
  proof -
    have "0 \<le> 2.428592205 * t * (1 - p)" using t p by simp
    moreover have "2.428592205 * t * (1 - p) \<le> 2.428592205 * 1 * 0.00000000004"
      using t p by (intro mult_mono) simp_all
    ultimately show ?thesis by simp
  qed
  have b: "\<bar>t * (0.7827717662 * p - 0.7827717289)\<bar> \<le> 0.0000000373"
  proof -
    have "0 \<le> 0.7827717662 * p - 0.7827717289" using p by simp
    then have "0 \<le> t * (0.7827717662 * p - 0.7827717289)" using t by simp
    moreover have "t * (0.7827717662 * p - 0.7827717289) \<le> 1 * 0.0000000373"
      using t p by (intro mult_mono) simp_all
    ultimately show ?thesis by simp
  qed
  have "chroma (rgbToOklch c c c) \<le> \<bar>2.428592205 * t * (1 - p)\<bar> + \<bar>t * (0.7827717662 * p - 0.7827717289)\<bar>"
    unfolding oklch_grey t_def p_def by (rule sqrt_sum_squares_le_sum_abs)
  with a b show ?thesis by simp
qed

lemma chroma_nonneg: "0 \<le> chroma (rgbToLch r g b)" "0 \<le> chroma (rgbToOklch r g b)"
  by (simp_all add: chroma_def rgbToLch_def rgbToOklch_def labToLch_def oklabToOklch_def
      Let_def split: prod.splits)

text \<open>
  Claim C2, as the code has it. For every grey \<open>r = g = b = k\<close> with \<open>k\<close> an integer from 0
  to 255, the chroma of \<^verbatim>\<open>rgbToOklch\<close> is within \<open>10^-6\<close> of zero and the chroma of
  \<^verbatim>\<open>rgbToLch\<close> is within \<open>2 * 10^-5\<close> of zero.
\<close>

theorem grey_chroma_bounds:
  "k \<le> 255 \<Longrightarrow>
     0 \<le> chroma (rgbToLch (real k) (real k) (real k))
     \<and> chroma (rgbToLch (real k) (real k) (real k)) \<le> 0.00002
     \<and> 0 \<le> chroma (rgbToOklch (real k) (real k) (real k))
     \<and> chroma (rgbToOklch (real k) (real k) (real k)) \<le> 0.000001"
  using lch_grey_bound[of k] oklch_grey_bound[of "real k"] chroma_nonneg[of "real k" "real k" "real k"]
  by simp

theorem grey_chroma_bounds_witness:
  "(255::nat) \<le> 255 \<and> chroma (rgbToLch (real 255) (real 255) (real 255)) \<le> 0.00002
   \<and> chroma (rgbToOklch (real 255) (real 255) (real 255)) \<le> 0.000001"
  using grey_chroma_bounds[of 255] by simp

text \<open>
  Claim C2 as stated fails for the LCH chroma of white: the second row of the matrix sums
  to 1.0000001 and the white point has \<open>Yn = 1\<close>, so the chroma of \<^verbatim>\<open>rgbToLch(255, 255, 255)\<close>
  is above \<open>10^-5\<close>.
\<close>

theorem white_lch_chroma_counterexample:
  "\<not> \<bar>chroma (rgbToLch 255 255 255) - 0\<bar> \<le> 0.000001
   \<and> 0.00001 < chroma (rgbToLch 255 255 255)"
  using lch_white_chroma by simp

subsection \<open>Black\<close>

text \<open>Black has lightness, chroma and hue zero in both spaces.\<close>

lemma black_lch: "rgbToLch 0 0 0 = (0, 0, 0)"
  by (simp add: rgbToLch_def srgbToLinear_def linearRgbToXyz_def xyzToLab_def lab_f_def
      labToLch_def Math_atan2_def Let_def)

lemma black_oklch: "rgbToOklch 0 0 0 = (0, 0, 0)"
  by (simp add: rgbToOklch_def srgbToLinear_def linearRgbToOklab_def oklabToOklch_def
      Math_atan2_def Let_def)

end
